theory Spec2Isabelle
  imports Main "HOL-Library.Word" "HOL-Library.Sublist"
begin

unbundle bit_operations_syntax

section \<open>Machine types and constants\<close>

text \<open>
  Bytes and the unsigned integers of the source are words.  \<open>off_t\<close> and \<open>time_t\<close>
  (signed 64-bit) are modelled as \<open>int\<close>: signed overflow is undefined in C and no
  operation below relies on it; where such a value is stored in a record it is
  converted with \<open>word_of_int\<close>, and read back with \<open>sint\<close>.  \<open>size_t\<close> counts are
  \<open>nat\<close>.  A C string is the \<open>string\<close> of the characters before its terminator.
  Memory allocation is assumed to succeed; failures of the system calls on the
  two backing files are part of the model.
\<close>

type_synonym byte = "8 word"
type_synonym u32 = "32 word"
type_synonym u64 = "64 word"

datatype errno = EINVAL | ENOENT | EEXIST | EISDIR | ENOTDIR | ENOTEMPTY | ENODATA
  | ERANGE | ENOSPC | EIO | EUNCHANGED

text \<open>
  \<open>EUNCHANGED\<close> stands for a return of \<open>-1\<close> on a path of the source that does not
  assign \<open>errno\<close>.  The file-type constants are the values of \<open>sys/stat.h\<close> on Linux
  (octal 0170000, 0100000, 0040000, 0120000).
\<close>

definition S_IFMT :: u32 where "S_IFMT = 0xF000"
definition S_IFREG :: u32 where "S_IFREG = 0x8000"
definition S_IFDIR :: u32 where "S_IFDIR = 0x4000"
definition S_IFLNK :: u32 where "S_IFLNK = 0xA000"

definition S_ISDIR :: "u32 \<Rightarrow> bool" where "S_ISDIR m = (m AND S_IFMT = S_IFDIR)"
definition S_ISREG :: "u32 \<Rightarrow> bool" where "S_ISREG m = (m AND S_IFMT = S_IFREG)"
definition S_ISLNK :: "u32 \<Rightarrow> bool" where "S_ISLNK m = (m AND S_IFMT = S_IFLNK)"

definition XATTR_CREATE :: int where "XATTR_CREATE = 1"
definition XATTR_REPLACE :: int where "XATTR_REPLACE = 2"

definition APPENDFS_MIN_FLUSH :: nat where "APPENDFS_MIN_FLUSH = 4 * 1024"

definition APPENDFS_RECORD_CREATE :: byte where "APPENDFS_RECORD_CREATE = 1"
definition APPENDFS_RECORD_EXTENT :: byte where "APPENDFS_RECORD_EXTENT = 2"
definition APPENDFS_RECORD_TRUNCATE :: byte where "APPENDFS_RECORD_TRUNCATE = 3"
definition APPENDFS_RECORD_UNLINK :: byte where "APPENDFS_RECORD_UNLINK = 4"
definition APPENDFS_RECORD_RENAME :: byte where "APPENDFS_RECORD_RENAME = 5"
definition APPENDFS_RECORD_MKDIR :: byte where "APPENDFS_RECORD_MKDIR = 6"
definition APPENDFS_RECORD_SETXATTR :: byte where "APPENDFS_RECORD_SETXATTR = 7"
definition APPENDFS_RECORD_REMOVEXATTR :: byte where "APPENDFS_RECORD_REMOVEXATTR = 8"
definition APPENDFS_RECORD_TIMES :: byte where "APPENDFS_RECORD_TIMES = 9"

definition RECORD_HEADER_SIZE :: nat where "RECORD_HEADER_SIZE = 9"

section \<open>Data model\<close>

record appendfs_extent =
  logical_offset :: int
  length_f :: u32
  data_offset :: int

record appendfs_xattr =
  name_f :: string
  value_f :: "byte list"

record appendfs_inode =
  inode_id :: u64
  path :: string
  mode :: u32
  size_f :: int
  ctime :: int
  mtime :: int
  atime :: int
  deleted :: bool
  extents :: "appendfs_extent list"
  symlink_target :: "string option"
  xattrs :: "appendfs_xattr list"

text \<open>
  A backing file as the process sees it through its descriptor: the bytes of the
  file, the file offset of the descriptor, and \<open>room\<close>, the number of bytes the
  device still accepts (a \<open>write\<close> with no room left fails).
\<close>

record backing_file =
  contents :: "byte list"
  pos :: nat
  room :: nat

text \<open>
  The inode array holds \<open>inode_count\<close> rows; \<open>inodes\<close> is the list of these rows.
  \<open>clock\<close> is the value \<open>time(NULL)\<close> returns.
\<close>

record appendfs_context =
  data_fd :: backing_file
  meta_fd :: backing_file
  next_inode_id :: u64
  inodes :: "appendfs_inode list"
  write_buffer_size :: nat
  clock :: int

text \<open>An open file refers to its inode by the index of the row.\<close>

record appendfs_file =
  inode :: nat
  buffer :: "byte list"
  buffer_size :: nat
  buffer_used :: nat
  buffer_offset :: int
  flags :: int
  position :: int

section \<open>CRC32 (crc32.c)\<close>

definition crc_step :: "u32 \<Rightarrow> u32" where
  "crc_step c = (if c AND 1 \<noteq> 0 then 0xedb88320 XOR drop_bit 1 c else drop_bit 1 c)"

primrec crc_round :: "nat \<Rightarrow> u32 \<Rightarrow> u32" where
  "crc_round 0 c = c"
| "crc_round (Suc j) c = crc_round j (crc_step c)"

definition crc_table :: "u32 \<Rightarrow> u32" where
  "crc_table i = crc_round 8 i"

definition appendfs_crc32 :: "byte list \<Rightarrow> u32" where
  "appendfs_crc32 data =
     fold (\<lambda>b c. crc_table ((c XOR ucast b) AND 0xff) XOR drop_bit 8 c) data 0xffffffff
       XOR 0xffffffff"

section \<open>System calls on a backing file\<close>

definition write_at :: "byte list \<Rightarrow> nat \<Rightarrow> byte list \<Rightarrow> byte list" where
  "write_at cs p bs =
     (if bs = [] then cs
      else take p (cs @ replicate (p - length cs) 0) @ bs @ drop (p + length bs) cs)"

text \<open>\<open>write(fd, bs, length bs)\<close>: \<open>None\<close> is the return value \<open>-1\<close>.\<close>

definition sys_write :: "backing_file \<Rightarrow> byte list \<Rightarrow> nat option \<times> backing_file" where
  "sys_write f bs =
     (if room f = 0 then (None, f)
      else let k = min (length bs) (room f)
           in (Some k, f\<lparr>contents := write_at (contents f) (pos f) (take k bs),
                         pos := pos f + k, room := room f - k\<rparr>))"

definition lseek_end :: "backing_file \<Rightarrow> backing_file" where
  "lseek_end f = f\<lparr>pos := length (contents f)\<rparr>"

text \<open>\<open>pread(fd, buf, n, off)\<close> on a regular file: the bytes read, fewer at end of file.\<close>

definition sys_pread :: "backing_file \<Rightarrow> nat \<Rightarrow> int \<Rightarrow> byte list option" where
  "sys_pread f n off = (if off < 0 then None else Some (take n (drop (nat off) (contents f))))"

function write_all :: "backing_file \<Rightarrow> byte list \<Rightarrow> (errno + unit) \<times> backing_file" where
  "write_all f bs =
     (if bs = [] then (Inr (), f)
      else case sys_write f bs of
             (None, f') \<Rightarrow> (Inl ENOSPC, f')
           | (Some rc, f') \<Rightarrow>
               if rc = 0 then (Inl EIO, f') else write_all f' (drop rc bs))"
  by pat_completeness auto
termination
  by (relation "measure (\<lambda>(f, bs). length bs)") auto

declare write_all.simps [simp del]

section \<open>Record codec\<close>

definition le32 :: "u32 \<Rightarrow> byte list" where
  "le32 w = [ucast (w AND 0xff), ucast (drop_bit 8 w AND 0xff),
             ucast (drop_bit 16 w AND 0xff), ucast (drop_bit 24 w AND 0xff)]"

definition le64 :: "u64 \<Rightarrow> byte list" where
  "le64 w = [ucast w, ucast (drop_bit 8 w), ucast (drop_bit 16 w), ucast (drop_bit 24 w),
             ucast (drop_bit 32 w), ucast (drop_bit 40 w), ucast (drop_bit 48 w),
             ucast (drop_bit 56 w)]"

definition str_bytes :: "string \<Rightarrow> byte list" where
  "str_bytes s = map of_char s"

definition write_record ::
  "appendfs_context \<Rightarrow> byte \<Rightarrow> byte list \<Rightarrow> u32 \<Rightarrow> (errno + unit) \<times> appendfs_context" where
  "write_record ctx type payload len =
     (let header = type # le32 len @ le32 (appendfs_crc32 (take (unat len) payload))
      in case write_all (meta_fd ctx) header of
           (Inl e, f) \<Rightarrow> (Inl e, ctx\<lparr>meta_fd := f\<rparr>)
         | (Inr u, f) \<Rightarrow>
             (case write_all f (take (unat len) payload) of
                (Inl e, f') \<Rightarrow> (Inl e, ctx\<lparr>meta_fd := f'\<rparr>)
              | (Inr u', f') \<Rightarrow> (Inr (), ctx\<lparr>meta_fd := f'\<rparr>)))"

definition create_payload :: "appendfs_inode \<Rightarrow> byte list" where
  "create_payload ino =
     le64 (inode_id ino) @ le32 (mode ino) @ le64 (word_of_int (size_f ino))
       @ le64 (word_of_int (mtime ino)) @ le32 (of_nat (length (path ino)))
       @ str_bytes (path ino)
       @ (case symlink_target ino of
            Some t \<Rightarrow> if S_ISLNK (mode ino)
                      then le32 (of_nat (length t))
                             @ take (unat (of_nat (length t) :: u32)) (str_bytes t)
                      else []
          | None \<Rightarrow> [])"

definition append_create_record ::
  "appendfs_context \<Rightarrow> appendfs_inode \<Rightarrow> (errno + unit) \<times> appendfs_context" where
  "append_create_record ctx ino =
     (let payload = create_payload ino
      in write_record ctx
           (if S_ISDIR (mode ino) then APPENDFS_RECORD_MKDIR else APPENDFS_RECORD_CREATE)
           payload (of_nat (length payload)))"

definition append_extent_record ::
  "appendfs_context \<Rightarrow> appendfs_inode \<Rightarrow> int \<Rightarrow> int \<Rightarrow> u32
     \<Rightarrow> (errno + unit) \<times> appendfs_context" where
  "append_extent_record ctx ino logical data_off len =
     (let payload = le64 (inode_id ino) @ le64 (word_of_int logical)
                      @ le64 (word_of_int data_off) @ le32 len
                      @ le64 (word_of_int (size_f ino))
      in write_record ctx APPENDFS_RECORD_EXTENT payload (of_nat (length payload)))"

definition append_truncate_record ::
  "appendfs_context \<Rightarrow> appendfs_inode \<Rightarrow> (errno + unit) \<times> appendfs_context" where
  "append_truncate_record ctx ino =
     (let payload = le64 (inode_id ino) @ le64 (word_of_int (size_f ino))
      in write_record ctx APPENDFS_RECORD_TRUNCATE payload (of_nat (length payload)))"

definition append_unlink_record ::
  "appendfs_context \<Rightarrow> appendfs_inode \<Rightarrow> (errno + unit) \<times> appendfs_context" where
  "append_unlink_record ctx ino =
     (let payload = le64 (inode_id ino)
      in write_record ctx APPENDFS_RECORD_UNLINK payload (of_nat (length payload)))"

definition rename_payload :: "u64 \<Rightarrow> string \<Rightarrow> byte list" where
  "rename_payload ident new_path =
     le64 ident @ le32 (of_nat (length new_path)) @ str_bytes new_path"

definition append_rename_record ::
  "appendfs_context \<Rightarrow> appendfs_inode \<Rightarrow> string \<Rightarrow> (errno + unit) \<times> appendfs_context" where
  "append_rename_record ctx ino new_path =
     (let payload = rename_payload (inode_id ino) new_path
      in write_record ctx APPENDFS_RECORD_RENAME payload (of_nat (length payload)))"



definition append_times_record ::
  "appendfs_context \<Rightarrow> appendfs_inode \<Rightarrow> (errno + unit) \<times> appendfs_context" where
  "append_times_record ctx ino =
     (let payload = le64 (inode_id ino) @ le64 (word_of_int (atime ino))
                      @ le64 (word_of_int (mtime ino))
      in write_record ctx APPENDFS_RECORD_TIMES payload (of_nat (length payload)))"

section \<open>Paths and the inode table\<close>

definition starts_slash :: "string \<Rightarrow> bool" where
  "starts_slash s = (case s of [] \<Rightarrow> False | c # cs \<Rightarrow> c = CHR ''/'')"

definition normalize_path_copy :: "string \<Rightarrow> string" where
  "normalize_path_copy p = (if starts_slash p then p else CHR ''/'' # p)"

definition normalize_path_view :: "string \<Rightarrow> string" where
  "normalize_path_view p = (if starts_slash p then p else normalize_path_copy p)"

text \<open>The index of the first element that satisfies the test: the linear scans of the source.\<close>

primrec find_first :: "('a \<Rightarrow> bool) \<Rightarrow> 'a list \<Rightarrow> nat option" where
  "find_first P [] = None"
| "find_first P (x # xs) = (if P x then Some 0 else map_option Suc (find_first P xs))"

definition path_match :: "string \<Rightarrow> appendfs_inode \<Rightarrow> bool" where
  "path_match needle ino =
     (\<not> deleted ino \<and>
      (path ino = needle
       \<or> (\<not> starts_slash (path ino) \<and> starts_slash needle \<and> path ino = tl needle)
       \<or> (starts_slash (path ino) \<and> \<not> starts_slash needle \<and> tl (path ino) = needle)))"

definition find_inode_by_path :: "appendfs_context \<Rightarrow> string \<Rightarrow> nat option" where
  "find_inode_by_path ctx p = find_first (path_match (normalize_path_view p)) (inodes ctx)"

definition find_inode_by_id :: "appendfs_context \<Rightarrow> u64 \<Rightarrow> nat option" where
  "find_inode_by_id ctx ident = find_first (\<lambda>ino. inode_id ino = ident) (inodes ctx)"

definition set_inode :: "appendfs_context \<Rightarrow> nat \<Rightarrow> appendfs_inode \<Rightarrow> appendfs_context" where
  "set_inode ctx i ino = ctx\<lparr>inodes := (inodes ctx)[i := ino]\<rparr>"

definition add_extent :: "appendfs_inode \<Rightarrow> int \<Rightarrow> int \<Rightarrow> u32 \<Rightarrow> appendfs_inode" where
  "add_extent ino logical data_off len =
     ino\<lparr>extents := extents ino
            @ [\<lparr>logical_offset = logical, length_f = len, data_offset = data_off\<rparr>]\<rparr>"

definition find_xattr :: "appendfs_inode \<Rightarrow> string \<Rightarrow> nat option" where
  "find_xattr ino name = find_first (\<lambda>x. name_f x = name) (xattrs ino)"

definition set_xattr_internal ::
  "appendfs_inode \<Rightarrow> string \<Rightarrow> byte list \<Rightarrow> int \<Rightarrow> errno + appendfs_inode" where
  "set_xattr_internal ino name val flgs =
     (let existing = find_xattr ino name
      in if flgs AND XATTR_CREATE \<noteq> 0 \<and> existing \<noteq> None then Inl EEXIST
         else if flgs AND XATTR_REPLACE \<noteq> 0 \<and> existing = None then Inl ENODATA
         else case existing of
                None \<Rightarrow> Inr (ino\<lparr>xattrs := xattrs ino @ [\<lparr>name_f = name, value_f = val\<rparr>]\<rparr>)
              | Some i \<Rightarrow>
                  Inr (ino\<lparr>xattrs := (xattrs ino)[i := (xattrs ino ! i)\<lparr>value_f := val\<rparr>]\<rparr>))"

definition remove_xattr_internal :: "appendfs_inode \<Rightarrow> string \<Rightarrow> errno + appendfs_inode" where
  "remove_xattr_internal ino name =
     (case find_first (\<lambda>x. name_f x = name) (xattrs ino) of
        None \<Rightarrow> Inl ENODATA
      | Some i \<Rightarrow> Inr (ino\<lparr>xattrs := take i (xattrs ino) @ drop (Suc i) (xattrs ino)\<rparr>))"

definition clear_inode_xattrs :: "appendfs_inode \<Rightarrow> appendfs_inode" where
  "clear_inode_xattrs ino = ino\<lparr>xattrs := []\<rparr>"

text \<open>
  The loop that \<open>appendfs_truncate\<close> and the replay of a TRUNCATE record share:
  it stops at the first extent that starts at or after the new size, or that
  crosses it.
\<close>

fun trim_extents :: "appendfs_extent list \<Rightarrow> int \<Rightarrow> appendfs_extent list" where
  "trim_extents [] sz = []"
| "trim_extents (e # es) sz =
     (if logical_offset e \<ge> sz then []
      else if logical_offset e + uint (length_f e) > sz
           then [e\<lparr>length_f := word_of_int (sz - logical_offset e)\<rparr>]
           else e # trim_extents es sz)"

section \<open>Replay of the metadata log\<close>

definition le_word :: "byte list \<Rightarrow> 'a::len word" where
  "le_word bs = foldr (\<lambda>b w. ucast b OR push_bit 8 w) bs 0"

definition rd32 :: "byte list \<Rightarrow> nat \<Rightarrow> u32" where
  "rd32 p off = le_word (take 4 (drop off p))"

definition rd64 :: "byte list \<Rightarrow> nat \<Rightarrow> u64" where
  "rd64 p off = le_word (take 8 (drop off p))"

definition strndup :: "byte list \<Rightarrow> nat \<Rightarrow> string" where
  "strndup p n = map (\<lambda>b. char_of (unat b)) (takeWhile (\<lambda>b. b \<noteq> 0) (take n p))"

definition zero_inode :: appendfs_inode where
  "zero_inode = \<lparr>inode_id = 0, path = [], mode = 0, size_f = 0, ctime = 0, mtime = 0,
                 atime = 0, deleted = False, extents = [], symlink_target = None,
                 xattrs = []\<rparr>"

text \<open>
  CREATE and MKDIR.  The source reads \<open>path_len\<close> at offset 28 after checking only
  that 28 bytes are there; with fewer than 32 bytes the next test rejects the
  record whatever was read.
\<close>

definition replay_create :: "appendfs_context \<Rightarrow> byte list \<Rightarrow> appendfs_context" where
  "replay_create ctx p =
     (if length p < 28 then ctx
      else let ident = rd64 p 0; md = rd32 p 8; sz = rd64 p 12; ts = rd64 p 20;
               path_len = rd32 p 28; off = 32
           in if off + unat path_len > length p then ctx
              else let pth = strndup (drop off p) (unat path_len);
                       (ctx1, i) =
                         (case find_inode_by_id ctx ident of
                            None \<Rightarrow> (ctx\<lparr>inodes := inodes ctx @ [zero_inode\<lparr>inode_id := ident\<rparr>]\<rparr>,
                                      length (inodes ctx))
                          | Some i \<Rightarrow>
                              (set_inode ctx i
                                 ((inodes ctx ! i)\<lparr>extents := [], symlink_target := None,
                                                    xattrs := []\<rparr>), i));
                       ino = (inodes ctx1 ! i)\<lparr>path := pth, mode := md, size_f := sint sz,
                               ctime := sint ts, mtime := sint ts, atime := sint ts,
                               deleted := False\<rparr>;
                       off2 = off + unat path_len;
                       ino2 =
                         (if S_ISLNK (mode ino) \<and> off2 + 4 \<le> length p
                          then let target_len = rd32 p off2; off3 = off2 + 4
                               in if off3 + unat target_len \<le> length p
                                  then ino\<lparr>symlink_target :=
                                             Some (strndup (drop off3 p) (unat target_len))\<rparr>
                                  else ino
                          else ino);
                       ctx2 = set_inode ctx1 i ino2
                   in if next_inode_id ctx2 \<le> ident
                      then ctx2\<lparr>next_inode_id := ident + 1\<rparr> else ctx2)"

definition replay_extent :: "appendfs_context \<Rightarrow> byte list \<Rightarrow> appendfs_context" where
  "replay_extent ctx p =
     (if length p < 36 then ctx
      else let ident = rd64 p 0; logical = sint (rd64 p 8); data_off = sint (rd64 p 16);
               len = rd32 p 24; new_size = sint (rd64 p 28)
           in case find_inode_by_id ctx ident of
                None \<Rightarrow> ctx
              | Some i \<Rightarrow>
                  let ino = add_extent (inodes ctx ! i) logical data_off len
                  in set_inode ctx i
                       (if new_size > size_f ino then ino\<lparr>size_f := new_size\<rparr> else ino))"

definition replay_truncate :: "appendfs_context \<Rightarrow> byte list \<Rightarrow> appendfs_context" where
  "replay_truncate ctx p =
     (if length p < 16 then ctx
      else let ident = rd64 p 0; new_size = sint (rd64 p 8)
           in case find_inode_by_id ctx ident of
                None \<Rightarrow> ctx
              | Some i \<Rightarrow>
                  set_inode ctx i
                    ((inodes ctx ! i)\<lparr>size_f := new_size,
                       extents := trim_extents (extents (inodes ctx ! i)) new_size\<rparr>))"

definition replay_unlink :: "appendfs_context \<Rightarrow> byte list \<Rightarrow> appendfs_context" where
  "replay_unlink ctx p =
     (if length p < 8 then ctx
      else case find_inode_by_id ctx (rd64 p 0) of
             None \<Rightarrow> ctx
           | Some i \<Rightarrow> set_inode ctx i ((inodes ctx ! i)\<lparr>deleted := True\<rparr>))"

definition replay_rename :: "appendfs_context \<Rightarrow> byte list \<Rightarrow> appendfs_context" where
  "replay_rename ctx p =
     (if length p < 12 then ctx
      else let ident = rd64 p 0; path_len = rd32 p 8
           in if 12 + unat path_len > length p then ctx
              else case find_inode_by_id ctx ident of
                     None \<Rightarrow> ctx
                   | Some i \<Rightarrow>
                       set_inode ctx i
                         ((inodes ctx ! i)\<lparr>path := strndup (drop 12 p) (unat path_len),
                                            deleted := False\<rparr>))"

definition replay_setxattr :: "appendfs_context \<Rightarrow> byte list \<Rightarrow> appendfs_context" where
  "replay_setxattr ctx p =
     (if length p < 16 then ctx
      else let ident = rd64 p 0; name_len = rd32 p 8; value_len = rd32 p 12; off = 16
           in if off + unat name_len + unat value_len > length p then ctx
              else case find_inode_by_id ctx ident of
                     None \<Rightarrow> ctx
                   | Some i \<Rightarrow>
                       (let name = strndup (drop off p) (unat name_len);
                            val = take (unat value_len) (drop (off + unat name_len) p)
                        in (case set_xattr_internal (inodes ctx ! i) name val 0 of
                              Inl e \<Rightarrow> ctx
                            | Inr ino \<Rightarrow> set_inode ctx i ino)))"

definition replay_removexattr :: "appendfs_context \<Rightarrow> byte list \<Rightarrow> appendfs_context" where
  "replay_removexattr ctx p =
     (if length p < 12 then ctx
      else let ident = rd64 p 0; name_len = rd32 p 8
           in if 12 + unat name_len > length p then ctx
              else case find_inode_by_id ctx ident of
                     None \<Rightarrow> ctx
                   | Some i \<Rightarrow>
                       (case remove_xattr_internal (inodes ctx ! i)
                               (strndup (drop 12 p) (unat name_len)) of
                          Inl e \<Rightarrow> ctx
                        | Inr ino \<Rightarrow> set_inode ctx i ino))"

definition replay_times :: "appendfs_context \<Rightarrow> byte list \<Rightarrow> appendfs_context" where
  "replay_times ctx p =
     (if length p < 24 then ctx
      else case find_inode_by_id ctx (rd64 p 0) of
             None \<Rightarrow> ctx
           | Some i \<Rightarrow>
               set_inode ctx i
                 ((inodes ctx ! i)\<lparr>atime := sint (rd64 p 8), mtime := sint (rd64 p 16)\<rparr>))"

text \<open>The \<open>switch\<close> of the replay loop on the record type.\<close>

definition apply_record :: "appendfs_context \<Rightarrow> byte \<Rightarrow> byte list \<Rightarrow> appendfs_context" where
  "apply_record ctx type p =
     (if type = APPENDFS_RECORD_CREATE \<or> type = APPENDFS_RECORD_MKDIR then replay_create ctx p
      else if type = APPENDFS_RECORD_EXTENT then replay_extent ctx p
      else if type = APPENDFS_RECORD_TRUNCATE then replay_truncate ctx p
      else if type = APPENDFS_RECORD_UNLINK then replay_unlink ctx p
      else if type = APPENDFS_RECORD_RENAME then replay_rename ctx p
      else if type = APPENDFS_RECORD_SETXATTR then replay_setxattr ctx p
      else if type = APPENDFS_RECORD_REMOVEXATTR then replay_removexattr ctx p
      else if type = APPENDFS_RECORD_TIMES then replay_times ctx p
      else ctx)"

definition header_length :: "byte list \<Rightarrow> u32" where
  "header_length header =
     ucast (header ! 1) OR push_bit 8 (ucast (header ! 2))
       OR push_bit 16 (ucast (header ! 3)) OR push_bit 24 (ucast (header ! 4))"

definition header_checksum :: "byte list \<Rightarrow> u32" where
  "header_checksum header =
     ucast (header ! 5) OR push_bit 8 (ucast (header ! 6))
       OR push_bit 16 (ucast (header ! 7)) OR push_bit 24 (ucast (header ! 8))"

text \<open>
  The \<open>while (1)\<close> loop of \<open>replay_metadata\<close>, on the bytes of the log from the
  current file offset on.  A \<open>read\<close> of the header returns what is left when
  fewer than nine bytes are left; \<open>read_all\<close> fails when the payload is short.
\<close>

function replay_loop :: "appendfs_context \<Rightarrow> byte list \<Rightarrow> appendfs_context" where
  "replay_loop ctx bs =
     (if length bs = 0 then ctx
      else if length bs < RECORD_HEADER_SIZE then ctx
      else if length (drop RECORD_HEADER_SIZE bs) < unat (header_length (take RECORD_HEADER_SIZE bs))
      then ctx
      else if appendfs_crc32 (take (unat (header_length (take RECORD_HEADER_SIZE bs)))
                               (drop RECORD_HEADER_SIZE bs))
              \<noteq> header_checksum (take RECORD_HEADER_SIZE bs)
      then replay_loop ctx
             (drop (unat (header_length (take RECORD_HEADER_SIZE bs)))
                (drop RECORD_HEADER_SIZE bs))
      else replay_loop
             (apply_record ctx (bs ! 0)
                (take (unat (header_length (take RECORD_HEADER_SIZE bs)))
                   (drop RECORD_HEADER_SIZE bs)))
             (drop (unat (header_length (take RECORD_HEADER_SIZE bs)))
                (drop RECORD_HEADER_SIZE bs)))"
  by pat_completeness auto
termination
  by (relation "measure (\<lambda>(ctx, bs). length bs)") (auto simp: RECORD_HEADER_SIZE_def)

declare replay_loop.simps [simp del]

definition replay_metadata :: "appendfs_context \<Rightarrow> (errno + unit) \<times> appendfs_context" where
  "replay_metadata ctx =
     (let ctx1 = replay_loop ctx (contents (meta_fd ctx))
      in (Inr (), ctx1\<lparr>meta_fd := lseek_end (meta_fd ctx1)\<rparr>))"

section \<open>Path predicates\<close>

definition path_is_prefix :: "string \<Rightarrow> string \<Rightarrow> bool" where
  "path_is_prefix p pre =
     (if take (length pre) p \<noteq> pre then False
      else if length pre = 0 then True
      else if last pre = CHR ''/'' then True
      else length p = length pre \<or> p ! length pre = CHR ''/'')"

definition is_immediate_child :: "string \<Rightarrow> string \<Rightarrow> bool" where
  "is_immediate_child parent candidate =
     (if parent = ''/''
      then (case candidate of
              [] \<Rightarrow> False
            | c # rest \<Rightarrow>
                if c \<noteq> CHR ''/'' \<or> rest = [] then False
                else if CHR ''/'' \<in> set rest then False
                else True)
      else if take (length parent) candidate \<noteq> parent then False
      else if \<not> (length parent < length candidate \<and> candidate ! length parent = CHR ''/'')
      then False
      else if drop (Suc (length parent)) candidate = [] then False
      else if CHR ''/'' \<in> set (drop (Suc (length parent)) candidate) then False
      else True)"

text \<open>
  \<open>split_path\<close> as its callers use it (a parent is asked for): the parent and
  the last component of an absolute path.
\<close>

definition split_path :: "string \<Rightarrow> errno + string \<times> string" where
  "split_path p =
     (if \<not> starts_slash p \<or> tl p = [] then Inl EINVAL
      else let name = rev (takeWhile (\<lambda>c. c \<noteq> CHR ''/'') (rev p));
               slash = length p - Suc (length name)
           in if name = [] then Inl EINVAL
              else Inr (if slash = 0 then ''/'' else take slash p, name))"

definition appendfs_is_directory_empty :: "appendfs_context \<Rightarrow> string \<Rightarrow> bool" where
  "appendfs_is_directory_empty ctx p =
     (let dir_path = normalize_path_view p
      in find_first (\<lambda>ino. \<not> deleted ino \<and> path ino \<noteq> dir_path
                              \<and> is_immediate_child dir_path (path ino)) (inodes ctx) = None)"

section \<open>Creating and removing inodes\<close>

definition create_inode :: "appendfs_context \<Rightarrow> string \<Rightarrow> u32 \<Rightarrow> appendfs_context \<times> nat" where
  "create_inode ctx p md =
     (ctx\<lparr>inodes := inodes ctx
            @ [zero_inode\<lparr>inode_id := next_inode_id ctx, path := normalize_path_copy p,
                 mode := md, ctime := clock ctx, mtime := clock ctx, atime := clock ctx,
                 size_f := 0, deleted := False\<rparr>],
          next_inode_id := next_inode_id ctx + 1\<rparr>,
      length (inodes ctx))"

text \<open>The parent test that \<open>create_file\<close>, \<open>mkdir\<close> and \<open>rename\<close> share.\<close>

definition parent_missing :: "appendfs_context \<Rightarrow> string \<Rightarrow> bool" where
  "parent_missing ctx parent =
     (parent \<noteq> ''/'' \<and>
      (case find_inode_by_path ctx parent of
         None \<Rightarrow> True
       | Some j \<Rightarrow> deleted (inodes ctx ! j) \<or> \<not> S_ISDIR (mode (inodes ctx ! j))))"

text \<open>Giving up a row that was just added: \<open>inode_count--\<close>.\<close>

definition drop_last_inode :: "appendfs_context \<Rightarrow> appendfs_context" where
  "drop_last_inode ctx = ctx\<lparr>inodes := butlast (inodes ctx)\<rparr>"

definition appendfs_create_file ::
  "appendfs_context \<Rightarrow> string \<Rightarrow> u32 \<Rightarrow> (errno + unit) \<times> appendfs_context" where
  "appendfs_create_file ctx p md =
     (let norm_path = normalize_path_copy p;
          existing = find_inode_by_path ctx norm_path
      in if (case existing of None \<Rightarrow> False | Some i \<Rightarrow> \<not> deleted (inodes ctx ! i))
         then (Inl EEXIST, ctx)
         else (case split_path norm_path of
                 Inl e \<Rightarrow> (Inl e, ctx)
               | Inr (parent, name) \<Rightarrow>
                   if parent_missing ctx parent then (Inl ENOENT, ctx)
                   else let (ctx1, i) =
                              (case existing of
                                 Some i \<Rightarrow>
                                   (set_inode ctx i
                                      (clear_inode_xattrs
                                         ((inodes ctx ! i)\<lparr>path := norm_path, extents := [],
                                            size_f := 0, deleted := False\<rparr>)), i)
                               | None \<Rightarrow> create_inode ctx norm_path (S_IFREG OR md));
                            ino = (inodes ctx1 ! i)\<lparr>mode := S_IFREG OR md, ctime := clock ctx,
                                    mtime := clock ctx, atime := clock ctx\<rparr>;
                            ctx2 = set_inode ctx1 i ino
                        in (case append_create_record ctx2 ino of
                              (Inl e, ctx3) \<Rightarrow>
                                (Inl e, if existing = None then drop_last_inode ctx3 else ctx3)
                            | (Inr u, ctx3) \<Rightarrow> (Inr (), ctx3))))"

definition appendfs_mkdirs ::
  "appendfs_context \<Rightarrow> string \<Rightarrow> u32 \<Rightarrow> (errno + unit) \<times> appendfs_context" where
  "appendfs_mkdirs ctx p md =
     (if find_inode_by_path ctx p \<noteq> None then (Inr (), ctx)
      else let (ctx1, i) = create_inode ctx p (S_IFDIR OR md)
           in (case append_create_record ctx1 (inodes ctx1 ! i) of
                 (Inl e, ctx2) \<Rightarrow> (Inl e, drop_last_inode ctx2)
               | (Inr u, ctx2) \<Rightarrow> (Inr (), ctx2)))"

definition appendfs_mkdir ::
  "appendfs_context \<Rightarrow> string \<Rightarrow> u32 \<Rightarrow> (errno + unit) \<times> appendfs_context" where
  "appendfs_mkdir ctx p md =
     (if p = [] then (Inl EINVAL, ctx)
      else if p = ''/'' then (Inl EINVAL, ctx)
      else let norm_path = normalize_path_copy p;
               existing = find_inode_by_path ctx norm_path
           in if (case existing of None \<Rightarrow> False | Some i \<Rightarrow> \<not> deleted (inodes ctx ! i))
              then (Inl EEXIST, ctx)
              else (case split_path norm_path of
                      Inl e \<Rightarrow> (Inl e, ctx)
                    | Inr (parent, name) \<Rightarrow>
                        if parent_missing ctx parent then (Inl ENOENT, ctx)
                        else (case existing of
                                Some i \<Rightarrow>
                                  (let ino = clear_inode_xattrs
                                               ((inodes ctx ! i)\<lparr>deleted := False,
                                                  mode := S_IFDIR OR (md AND 0x1FF),
                                                  ctime := clock ctx, mtime := clock ctx,
                                                  atime := clock ctx\<rparr>)
                                   in append_create_record (set_inode ctx i ino) ino)
                              | None \<Rightarrow>
                                  (let (ctx1, i) =
                                         create_inode ctx norm_path (S_IFDIR OR (md AND 0x1FF))
                                   in (case append_create_record ctx1 (inodes ctx1 ! i) of
                                         (Inl e, ctx2) \<Rightarrow> (Inl e, drop_last_inode ctx2)
                                       | (Inr u, ctx2) \<Rightarrow> (Inr (), ctx2))))))"

definition appendfs_unlink ::
  "appendfs_context \<Rightarrow> string \<Rightarrow> (errno + unit) \<times> appendfs_context" where
  "appendfs_unlink ctx p =
     (case find_inode_by_path ctx p of
        None \<Rightarrow> (Inl ENOENT, ctx)
      | Some i \<Rightarrow>
          if S_ISDIR (mode (inodes ctx ! i)) then (Inl EISDIR, ctx)
          else let ino = (inodes ctx ! i)\<lparr>deleted := True\<rparr>
               in append_unlink_record (set_inode ctx i ino) ino)"

definition appendfs_truncate ::
  "appendfs_context \<Rightarrow> string \<Rightarrow> int \<Rightarrow> (errno + unit) \<times> appendfs_context" where
  "appendfs_truncate ctx p sz =
     (case find_inode_by_path ctx p of
        None \<Rightarrow> (Inl ENOENT, ctx)
      | Some i \<Rightarrow>
          if \<not> S_ISREG (mode (inodes ctx ! i)) \<and> \<not> S_ISLNK (mode (inodes ctx ! i))
          then (Inl EINVAL, ctx)
          else let ino = (inodes ctx ! i)\<lparr>size_f := sz\<rparr>
               in (case append_truncate_record (set_inode ctx i ino) ino of
                     (Inl e, ctx1) \<Rightarrow> (Inl e, ctx1)
                   | (Inr u, ctx1) \<Rightarrow>
                       (Inr (),
                        set_inode ctx1 i
                          ((inodes ctx1 ! i)\<lparr>extents := trim_extents (extents (inodes ctx1 ! i)) sz,
                             mtime := clock ctx1\<rparr>))))"

record stat_info =
  st_mode :: u32
  st_size :: int
  st_ctime :: int
  st_mtime :: int
  st_atime :: int
  st_nlink :: nat
  st_ino :: u64

definition appendfs_stat :: "appendfs_context \<Rightarrow> string \<Rightarrow> errno + stat_info" where
  "appendfs_stat ctx p =
     (case find_inode_by_path ctx p of
        None \<Rightarrow> Inl ENOENT
      | Some i \<Rightarrow>
          if deleted (inodes ctx ! i) then Inl ENOENT
          else Inr \<lparr>st_mode = mode (inodes ctx ! i), st_size = size_f (inodes ctx ! i),
                     st_ctime = ctime (inodes ctx ! i), st_mtime = mtime (inodes ctx ! i),
                     st_atime = atime (inodes ctx ! i), st_nlink = 1,
                     st_ino = inode_id (inodes ctx ! i)\<rparr>)"

section \<open>Rename\<close>

text \<open>
  The test of the collecting loop of \<open>appendfs_rename\<close> on row \<open>i\<close>: a live row other
  than the renamed one whose path continues \<open>from_norm\<close> with a \<open>/\<close>.
\<close>

definition rename_selects :: "appendfs_context \<Rightarrow> nat \<Rightarrow> string \<Rightarrow> nat \<Rightarrow> bool" where
  "rename_selects ctx src from_norm i =
     (i \<noteq> src \<and> \<not> deleted (inodes ctx ! i)
      \<and> path_is_prefix (path (inodes ctx ! i)) from_norm
      \<and> \<not> (length (path (inodes ctx ! i)) \<le> length from_norm
             \<or> path (inodes ctx ! i) ! length from_norm \<noteq> CHR ''/''))"

definition rename_children ::
  "appendfs_context \<Rightarrow> nat \<Rightarrow> string \<Rightarrow> string \<Rightarrow> (nat \<times> string) list" where
  "rename_children ctx src from_norm to_norm =
     map (\<lambda>i. (i, to_norm @ drop (length from_norm) (path (inodes ctx ! i))))
       (filter (rename_selects ctx src from_norm) [0..<length (inodes ctx)])"

text \<open>The second loop: one RENAME record per collected row, then its new path.\<close>

fun rename_apply ::
  "appendfs_context \<Rightarrow> (nat \<times> string) list \<Rightarrow> (errno + unit) \<times> appendfs_context" where
  "rename_apply ctx [] = (Inr (), ctx)"
| "rename_apply ctx ((i, child_new_path) # rest) =
     (case append_rename_record ctx (inodes ctx ! i) child_new_path of
        (Inl e, ctx1) \<Rightarrow> (Inl e, ctx1)
      | (Inr u, ctx1) \<Rightarrow>
          rename_apply
            (set_inode ctx1 i ((inodes ctx1 ! i)\<lparr>path := child_new_path, deleted := False\<rparr>))
            rest)"

text \<open>
  The part of \<open>appendfs_rename\<close> after the destination has been dealt with:
  collect the descendants, append the record of the moved inode, move it, then
  the descendants.
\<close>

definition rename_move ::
  "appendfs_context \<Rightarrow> nat \<Rightarrow> string \<Rightarrow> string \<Rightarrow> (errno + unit) \<times> appendfs_context" where
  "rename_move ctx src from_norm to_norm =
     (let children = (if S_ISDIR (mode (inodes ctx ! src))
                      then rename_children ctx src from_norm to_norm else [])
      in (case append_rename_record ctx (inodes ctx ! src) to_norm of
            (Inl e, ctx1) \<Rightarrow> (Inl e, ctx1)
          | (Inr u, ctx1) \<Rightarrow>
              rename_apply
                (set_inode ctx1 src
                   ((inodes ctx1 ! src)\<lparr>path := to_norm, deleted := False,
                                         mtime := clock ctx1\<rparr>))
                children))"

definition appendfs_rename ::
  "appendfs_context \<Rightarrow> string \<Rightarrow> string \<Rightarrow> (errno + unit) \<times> appendfs_context" where
  "appendfs_rename ctx from_path to_path =
     (let from_norm = normalize_path_copy from_path;
          to_norm = normalize_path_copy to_path
      in (case find_inode_by_path ctx from_norm of
            None \<Rightarrow> (Inl ENOENT, ctx)
          | Some src \<Rightarrow>
              if from_norm = to_norm then (Inr (), ctx)
              else (case split_path to_norm of
                      Inl e \<Rightarrow> (Inl e, ctx)
                    | Inr (to_parent, name) \<Rightarrow>
                        if parent_missing ctx to_parent then (Inl ENOENT, ctx)
                        else (case find_inode_by_path ctx to_norm of
                                None \<Rightarrow> rename_move ctx src from_norm to_norm
                              | Some dest \<Rightarrow>
                                  if deleted (inodes ctx ! dest)
                                  then rename_move ctx src from_norm to_norm
                                  else if S_ISDIR (mode (inodes ctx ! src))
                                          \<and> \<not> S_ISDIR (mode (inodes ctx ! dest))
                                  then (Inl ENOTDIR, ctx)
                                  else if S_ISDIR (mode (inodes ctx ! src))
                                          \<and> \<not> appendfs_is_directory_empty ctx to_norm
                                  then (Inl ENOTEMPTY, ctx)
                                  else if \<not> S_ISDIR (mode (inodes ctx ! src))
                                          \<and> S_ISDIR (mode (inodes ctx ! dest))
                                  then (Inl EISDIR, ctx)
                                  else (let d = (inodes ctx ! dest)\<lparr>deleted := True,
                                                  mtime := clock ctx\<rparr>
                                        in (case append_unlink_record (set_inode ctx dest d) d of
                                              (Inl e, ctx1) \<Rightarrow> (Inl e, ctx1)
                                            | (Inr u, ctx1) \<Rightarrow>
                                                rename_move ctx1 src from_norm to_norm))))))"

section \<open>Extended attributes\<close>



section \<open>Write buffer, flush and write\<close>

definition memcpy_at :: "byte list \<Rightarrow> nat \<Rightarrow> byte list \<Rightarrow> byte list" where
  "memcpy_at dst off src = take off dst @ src @ drop (off + length src) dst"

definition flush_buffer ::
  "appendfs_file \<times> appendfs_context \<Rightarrow> (errno + unit) \<times> appendfs_file \<times> appendfs_context" where
  "flush_buffer fc =
     (let file = fst fc; ctx = snd fc
      in if buffer_used file = 0 then (Inr (), file, ctx)
         else (let fd = lseek_end (data_fd ctx);
                   data_off = int (pos fd)
               in (case write_all fd (take (buffer_used file) (buffer file)) of
                     (Inl e, fd1) \<Rightarrow> (Inl e, file, ctx\<lparr>data_fd := fd1\<rparr>)
                   | (Inr u, fd1) \<Rightarrow>
                       (let ino = add_extent (inodes ctx ! inode file) (buffer_offset file)
                                    data_off (of_nat (buffer_used file));
                            new_size = buffer_offset file + int (buffer_used file);
                            ino1 = (if new_size > size_f ino then ino\<lparr>size_f := new_size\<rparr>
                                    else ino)\<lparr>mtime := clock ctx\<rparr>;
                            ctx1 = set_inode (ctx\<lparr>data_fd := fd1\<rparr>) (inode file) ino1
                        in (case append_extent_record ctx1 ino1 (buffer_offset file) data_off
                                   (of_nat (buffer_used file)) of
                              (Inl e, ctx2) \<Rightarrow> (Inl e, file, ctx2)
                            | (Inr u', ctx2) \<Rightarrow> (Inr (), file\<lparr>buffer_used := 0\<rparr>, ctx2))))))"

text \<open>
  The \<open>while (remaining > 0)\<close> loop of \<open>appendfs_write\<close>.  With a buffer of size
  zero it never ends, so the loop is a partial function: \<open>None\<close> is "does not
  return".
\<close>

partial_function (option) write_loop ::
  "appendfs_file \<times> appendfs_context \<Rightarrow> byte list \<Rightarrow> nat \<Rightarrow> int \<Rightarrow> nat
     \<Rightarrow> ((errno + unit) \<times> appendfs_file \<times> appendfs_context) option" where
  "write_loop fc buf sz offset remaining =
     (if \<not> remaining > 0 then Some (Inr (), fc)
      else (case (if buffer_size (fst fc) - buffer_used (fst fc) = 0
                  then (case flush_buffer fc of
                          (Inl e, fc1) \<Rightarrow> (Inl e, fc1)
                        | (Inr u, file1, ctx1) \<Rightarrow>
                            (Inr (), file1\<lparr>buffer_offset := offset + int (sz - remaining)\<rparr>, ctx1))
                  else (Inr (), fc)) of
              (Inl e, fc1) \<Rightarrow> Some (Inl e, fc1)
            | (Inr u, file1, ctx1) \<Rightarrow>
                (let space = (if buffer_size (fst fc) - buffer_used (fst fc) = 0
                              then buffer_size file1
                              else buffer_size (fst fc) - buffer_used (fst fc));
                     to_copy = (if remaining > space then space else remaining);
                     file2 = file1\<lparr>buffer := memcpy_at (buffer file1) (buffer_used file1)
                                                (take to_copy (drop (sz - remaining) buf)),
                                    buffer_used := buffer_used file1 + to_copy\<rparr>;
                     remaining2 = remaining - to_copy
                 in if buffer_used file2 \<ge> APPENDFS_MIN_FLUSH
                       \<and> buffer_used file2 \<ge> buffer_size file2
                    then (case flush_buffer (file2, ctx1) of
                            (Inl e, fc3) \<Rightarrow> Some (Inl e, fc3)
                          | (Inr u', file3, ctx3) \<Rightarrow>
                              write_loop
                                (file3\<lparr>buffer_offset := offset + int (sz - remaining2)\<rparr>, ctx3)
                                buf sz offset remaining2)
                    else write_loop (file2, ctx1) buf sz offset remaining2)))"

text \<open>
  \<open>appendfs_write(file, buf, size, offset)\<close>; the file and the buffer are given
  (non-null).  The result is the number of bytes written.
\<close>

definition appendfs_write ::
  "appendfs_file \<times> appendfs_context \<Rightarrow> byte list \<Rightarrow> nat \<Rightarrow> int
     \<Rightarrow> ((errno + nat) \<times> appendfs_file \<times> appendfs_context) option" where
  "appendfs_write fc buf sz offset =
     (if sz = 0 then Some (Inr 0, fc)
      else (case (if buffer_used (fst fc) > 0
                     \<and> offset \<noteq> buffer_offset (fst fc) + int (buffer_used (fst fc))
                  then flush_buffer fc else (Inr (), fc)) of
              (Inl e, fc1) \<Rightarrow> Some (Inl e, fc1)
            | (Inr u, file1, ctx1) \<Rightarrow>
                (case write_loop
                        (if buffer_used file1 = 0 then file1\<lparr>buffer_offset := offset\<rparr>
                         else file1, ctx1) buf sz offset sz of
                   None \<Rightarrow> None
                 | Some (Inl e, fc2) \<Rightarrow> Some (Inl e, fc2)
                 | Some (Inr u', file2, ctx2) \<Rightarrow>
                     Some (Inr sz, file2\<lparr>position := offset + int sz\<rparr>, ctx2))))"

definition appendfs_flush ::
  "appendfs_file \<times> appendfs_context \<Rightarrow> (errno + unit) \<times> appendfs_file \<times> appendfs_context" where
  "appendfs_flush fc = flush_buffer fc"

section \<open>Read\<close>

text \<open>
  The \<open>for\<close> loop of \<open>appendfs_read\<close> over the extents, with the running \<open>total\<close>
  and the output buffer \<open>out\<close>.  A \<open>pread\<close> that returns fewer bytes than asked
  for has stored them before the function gives up.
\<close>

fun read_extents ::
  "backing_file \<Rightarrow> appendfs_extent list \<Rightarrow> nat \<Rightarrow> int \<Rightarrow> nat \<Rightarrow> byte list
     \<Rightarrow> (errno + nat) \<times> byte list" where
  "read_extents fd [] sz offset tot out = (Inr tot, out)"
| "read_extents fd (ext # exts) sz offset tot out =
     (if \<not> tot < sz then (Inr tot, out)
      else let ext_end = logical_offset ext + uint (length_f ext)
           in if offset \<ge> ext_end then read_extents fd exts sz offset tot out
              else let start = (if offset > logical_offset ext then offset
                                else logical_offset ext);
                       endp = (if ext_end > offset + int (sz - tot)
                              then offset + int (sz - tot) else ext_end)
                   in if start \<ge> endp then read_extents fd exts sz offset tot out
                      else let read_len = nat (endp - start);
                               data_pos = data_offset ext + (start - logical_offset ext)
                           in (case sys_pread fd read_len data_pos of
                                 None \<Rightarrow> (Inl EUNCHANGED, out)
                               | Some bs \<Rightarrow>
                                   if length bs \<noteq> read_len
                                   then (Inl EUNCHANGED, memcpy_at out tot bs)
                                   else read_extents fd exts sz offset (tot + read_len)
                                          (memcpy_at out tot bs)))"

definition appendfs_read ::
  "appendfs_context \<Rightarrow> string \<Rightarrow> byte list \<Rightarrow> nat \<Rightarrow> int
     \<Rightarrow> (errno + nat) \<times> byte list \<times> appendfs_context" where
  "appendfs_read ctx p buf sz offset =
     (case find_inode_by_path ctx p of
        None \<Rightarrow> (Inl ENOENT, buf, ctx)
      | Some i \<Rightarrow>
          if deleted (inodes ctx ! i) then (Inl ENOENT, buf, ctx)
          else if offset \<ge> size_f (inodes ctx ! i) then (Inr 0, buf, ctx)
          else (case read_extents (data_fd ctx) (extents (inodes ctx ! i)) sz offset 0 buf of
                  (Inl e, out) \<Rightarrow> (Inl e, out, ctx)
                | (Inr tot, out) \<Rightarrow>
                    (Inr tot, out,
                     if tot > 0
                     then set_inode ctx i ((inodes ctx ! i)\<lparr>atime := clock ctx\<rparr>)
                     else ctx)))"

section \<open>Opening a store\<close>

definition APPENDFS_DEFAULT_BUFFER :: nat where
  "APPENDFS_DEFAULT_BUFFER = 4 * 1024 * 1024"

text \<open>
  \<open>appendfs_open\<close> once the two backing files are open: the fresh context, then
  the replay of the metadata log from offset 0.  \<open>now\<close> is the reading of the clock.
\<close>

definition appendfs_open ::
  "backing_file \<Rightarrow> backing_file \<Rightarrow> int \<Rightarrow> (errno + unit) \<times> appendfs_context" where
  "appendfs_open dfile mfile now =
     replay_metadata
       \<lparr>data_fd = dfile, meta_fd = mfile\<lparr>pos := 0\<rparr>, next_inode_id = 1, inodes = [],
        write_buffer_size = APPENDFS_DEFAULT_BUFFER, clock = now\<rparr>"

section \<open>Notions used to state the properties\<close>

text \<open>
  A record as it lies in the log: type, payload length, checksum, payload; and
  the bytes \<open>write_record\<close> hands to the log for a payload and a length argument.
\<close>

definition frame :: "byte \<Rightarrow> byte list \<Rightarrow> u32 \<Rightarrow> byte list" where
  "frame t p c = t # le32 (of_nat (length p)) @ le32 c @ p"

definition record_bytes :: "byte \<Rightarrow> byte list \<Rightarrow> byte list" where
  "record_bytes t p =
     t # le32 (of_nat (length p))
       @ le32 (appendfs_crc32 (take (unat (of_nat (length p) :: u32)) p))
       @ take (unat (of_nat (length p) :: u32)) p"

text \<open>A sequence of records with correct checksums, and their effect in order.\<close>

definition good_frames :: "(byte \<times> byte list) list \<Rightarrow> byte list" where
  "good_frames rs = concat (map (\<lambda>r. frame (fst r) (snd r) (appendfs_crc32 (snd r))) rs)"

definition apply_records ::
  "appendfs_context \<Rightarrow> (byte \<times> byte list) list \<Rightarrow> appendfs_context" where
  "apply_records ctx rs = foldl (\<lambda>c r. apply_record c (fst r) (snd r)) ctx rs"


text \<open>The paths of the live inodes, in table order.\<close>

definition live_paths :: "appendfs_context \<Rightarrow> string list" where
  "live_paths ctx = map path (filter (\<lambda>ino. \<not> deleted ino) (inodes ctx))"

text \<open>An empty store whose backing files accept \<open>r\<close> more bytes each.\<close>

definition empty_store :: "nat \<Rightarrow> appendfs_context" where
  "empty_store r =
     \<lparr>data_fd = \<lparr>contents = [], pos = 0, room = r\<rparr>,
      meta_fd = \<lparr>contents = [], pos = 0, room = r\<rparr>,
      next_inode_id = 1, inodes = [], write_buffer_size = APPENDFS_DEFAULT_BUFFER,
      clock = 1700000000\<rparr>"

text \<open>A descriptor positioned at the end of its file, as the log is after \<open>appendfs_open\<close>.\<close>

definition at_end :: "backing_file \<Rightarrow> bool" where
  "at_end f = (pos f = length (contents f))"

section \<open>Concrete stores\<close>

text \<open>
  A regular file with mode 0644 and the given path, size and extents, as
  \<open>appendfs_create_file\<close> and the flushes of writes leave it.
\<close>

definition file_inode :: "u64 \<Rightarrow> string \<Rightarrow> int \<Rightarrow> appendfs_extent list \<Rightarrow> appendfs_inode" where
  "file_inode ident p sz exts =
     \<lparr>inode_id = ident, path = p, mode = 0x81A4, size_f = sz, ctime = 1700000000,
      mtime = 1700000000, atime = 1700000000, deleted = False, extents = exts,
      symlink_target = None, xattrs = []\<rparr>"

definition dir_inode :: "u64 \<Rightarrow> string \<Rightarrow> appendfs_inode" where
  "dir_inode ident p =
     \<lparr>inode_id = ident, path = p, mode = 0x41ED, size_f = 0, ctime = 1700000000,
      mtime = 1700000000, atime = 1700000000, deleted = False, extents = [],
      symlink_target = None, xattrs = []\<rparr>"

definition store_of :: "appendfs_inode list \<Rightarrow> byte list \<Rightarrow> nat \<Rightarrow> appendfs_context" where
  "store_of rows bytes r =
     \<lparr>data_fd = \<lparr>contents = bytes, pos = length bytes, room = r\<rparr>,
      meta_fd = \<lparr>contents = [], pos = 0, room = r\<rparr>,
      next_inode_id = of_nat (length rows) + 1, inodes = rows,
      write_buffer_size = APPENDFS_DEFAULT_BUFFER, clock = 1700000000\<rparr>"

text \<open>
  The file of scenario S2: 4096 bytes \<open>0xAA\<close> written at offset 1048576 and
  flushed, so that the first 1048576 bytes of the file are a hole.
\<close>

definition hole_store :: appendfs_context where
  "hole_store =
     store_of [file_inode 1 ''/h'' 1052672
                 [\<lparr>logical_offset = 1048576, length_f = 4096, data_offset = 0\<rparr>]]
       (replicate 4096 0xAA) 1000000"

text \<open>A file of 8 bytes whose last four bytes were written and flushed.\<close>

definition tail_store :: appendfs_context where
  "tail_store =
     store_of [file_inode 1 ''/t'' 8
                 [\<lparr>logical_offset = 4, length_f = 4, data_offset = 0\<rparr>]]
       [1, 2, 3, 4] 1000000"

text \<open>
  The file of scenario S3: 1024 bytes \<open>0x11\<close> written at offset 0 and flushed,
  then 512 bytes \<open>0x22\<close> written at offset 256 and flushed.
\<close>

definition overlap_store :: appendfs_context where
  "overlap_store =
     store_of [file_inode 1 ''/o'' 1024
                 [\<lparr>logical_offset = 0, length_f = 1024, data_offset = 0\<rparr>,
                  \<lparr>logical_offset = 256, length_f = 512, data_offset = 1024\<rparr>]]
       (replicate 1024 0x11 @ replicate 512 0x22) 1000000"

text \<open>A store with one file of ten bytes whose backing files accept no more bytes.\<close>

definition full_store :: appendfs_context where
  "full_store =
     store_of [file_inode 1 ''/f'' 10
                 [\<lparr>logical_offset = 0, length_f = 10, data_offset = 0\<rparr>]]
       (replicate 10 0x61) 0"

text \<open>
  Records for replay: the MKDIR record of a directory \<open>/d\<close> and the CREATE records
  of files \<open>/f\<close> and \<open>/g\<close>.
\<close>

definition record_d :: "byte \<times> byte list" where
  "record_d = (APPENDFS_RECORD_MKDIR, create_payload (dir_inode 1 ''/d''))"

definition record_f :: "byte \<times> byte list" where
  "record_f = (APPENDFS_RECORD_CREATE, create_payload (file_inode 2 ''/f'' 0 []))"

definition record_g :: "byte \<times> byte list" where
  "record_g = (APPENDFS_RECORD_CREATE, create_payload (file_inode 3 ''/g'' 0 []))"

text \<open>A log that ends in a torn record: a whole record, then three bytes of a header.\<close>

definition torn_log :: "byte list" where
  "torn_log = good_frames [record_d] @ [1, 2, 3]"

text \<open>The store opened on the torn log, with room left in both files.\<close>

definition torn_store :: appendfs_context where
  "torn_store =
     snd (appendfs_open \<lparr>contents = [], pos = 0, room = 1000\<rparr>
            \<lparr>contents = torn_log, pos = 0, room = 1000\<rparr> 1700000000)"


text \<open>
  The rows of the live inodes whose path continues \<open>A\<close> with a \<open>/\<close> (the strict
  descendants of \<open>A\<close>), in table order; and the bytes of the RENAME record of
  row \<open>i\<close> for a new path.
\<close>

definition descendants :: "appendfs_context \<Rightarrow> string \<Rightarrow> nat list" where
  "descendants ctx A =
     filter (\<lambda>i. \<not> deleted (inodes ctx ! i) \<and> prefix (A @ ''/'') (path (inodes ctx ! i)))
       [0..<length (inodes ctx)]"

definition rename_record :: "appendfs_context \<Rightarrow> nat \<Rightarrow> string \<Rightarrow> byte list" where
  "rename_record ctx i np =
     record_bytes APPENDFS_RECORD_RENAME (rename_payload (inode_id (inodes ctx ! i)) np)"

text \<open>
  The tree of scenario S4: directories \<open>/a\<close> and \<open>/a/b\<close> and the file \<open>/a/b/c\<close>
  holding the two bytes \<open>hi\<close>.
\<close>

definition subtree_store :: appendfs_context where
  "subtree_store =
     store_of [dir_inode 1 ''/a'', dir_inode 2 ''/a/b'',
               file_inode 3 ''/a/b/c'' 2
                 [\<lparr>logical_offset = 0, length_f = 2, data_offset = 0\<rparr>]]
       [0x68, 0x69] 1000"

section \<open>Properties\<close>

subsection \<open>Writing to a backing file\<close>

lemma write_at_end: "write_at cs (length cs) bs = cs @ bs"
  by (simp add: write_at_def)

lemma write_all_nil: "write_all f [] = (Inr (), f)"
  by (subst write_all.simps) simp

lemma write_all_ok:
  assumes le: "length bs \<le> room f"
  shows "write_all f bs = (Inr (), f\<lparr>contents := write_at (contents f) (pos f) bs,
                                pos := pos f + length bs, room := room f - length bs\<rparr>)"
proof (cases "bs = []")
  case True
  then show ?thesis by (simp add: write_at_def write_all_nil)
next
  case False
  then have "0 < length bs" by simp
  with le have r: "room f \<noteq> 0" by linarith
  have step: "sys_write f bs = (Some (length bs), f\<lparr>contents := write_at (contents f) (pos f) bs,
                                pos := pos f + length bs, room := room f - length bs\<rparr>)"
    using le r by (simp add: sys_write_def Let_def min_def)
  show ?thesis
    by (subst write_all.simps) (simp add: step False write_all_nil)
qed

lemma write_all_short:
  assumes lt: "room f < length bs"
  shows "write_all f bs = (Inl ENOSPC, f\<lparr>contents := write_at (contents f) (pos f) (take (room f) bs),
                                pos := pos f + room f, room := 0\<rparr>)"
proof (cases "room f = 0")
  case True
  from lt have ne: "bs \<noteq> []" by auto
  have step: "sys_write f bs = (None, f)" using True by (simp add: sys_write_def)
  show ?thesis
    by (subst write_all.simps) (simp add: step ne True write_at_def)
next
  case False
  from lt have ne: "bs \<noteq> []" by auto
  let ?f1 = "f\<lparr>contents := write_at (contents f) (pos f) (take (room f) bs),
                                pos := pos f + room f, room := 0\<rparr>"
  have step: "sys_write f bs = (Some (room f), ?f1)"
    using False lt by (simp add: sys_write_def Let_def min_def)
  have ne2: "drop (room f) bs \<noteq> []" using lt by simp
  have step2: "sys_write ?f1 (drop (room f) bs) = (None, ?f1)"
    by (simp add: sys_write_def)
  have "write_all ?f1 (drop (room f) bs) = (Inl ENOSPC, ?f1)"
    by (subst write_all.simps) (simp only: step2 ne2 if_False prod.case option.case)
  then show ?thesis
    by (subst write_all.simps) (simp add: step ne False)
qed

lemma write_all_cases:
  "write_all f bs =
     (if length bs \<le> room f
      then (Inr (), f\<lparr>contents := write_at (contents f) (pos f) bs,
                      pos := pos f + length bs, room := room f - length bs\<rparr>)
      else (Inl ENOSPC, f\<lparr>contents := write_at (contents f) (pos f) (take (room f) bs),
                          pos := pos f + room f, room := 0\<rparr>))"
  by (simp add: write_all_ok write_all_short)

lemma le32_length [simp]: "length (le32 w) = 4"
  by (simp add: le32_def)

lemma le64_length [simp]: "length (le64 w) = 8"
  by (simp add: le64_def)

lemma record_bytes_length:
  "length (record_bytes t p) = 9 + length (take (unat (of_nat (length p) :: u32)) p)"
  by (simp add: record_bytes_def)

text \<open>What \<open>write_record\<close> does, by the room left in the log.\<close>

lemma write_record_frame:
  "snd (write_record ctx t p l) = ctx\<lparr>meta_fd := meta_fd (snd (write_record ctx t p l))\<rparr>"
  by (simp add: write_record_def Let_def write_all_cases)

lemma write_record_ok_iff:
  "fst (write_record ctx t p l) = Inr () \<longleftrightarrow> 9 + min (unat l) (length p) \<le> room (meta_fd ctx)"
  by (auto simp add: write_record_def Let_def write_all_cases min_def)

lemma write_record_appends:
  assumes "at_end (meta_fd ctx)" "fst (write_record ctx t p (of_nat (length p))) = Inr ()"
  shows "contents (meta_fd (snd (write_record ctx t p (of_nat (length p)))))
           = contents (meta_fd ctx) @ record_bytes t p
         \<and> at_end (meta_fd (snd (write_record ctx t p (of_nat (length p)))))"
  using assms
  by (auto simp add: write_record_def Let_def write_all_cases at_end_def write_at_end
        record_bytes_def write_at_def min_def split: if_splits)

subsection \<open>Header round trip\<close>

lemma and_ff32: "(w AND 0xff :: u32) = take_bit 8 w"
  using take_bit_eq_mask [of 8 w] by (simp add: mask_eq_exp_minus_1)

lemma le32_assemble:
  "ucast (ucast (take_bit 8 w) :: byte)
     OR push_bit 8 (ucast (ucast (take_bit 8 (drop_bit 8 w)) :: byte))
     OR push_bit 16 (ucast (ucast (take_bit 8 (drop_bit 16 w)) :: byte))
     OR push_bit 24 (ucast (ucast (take_bit 8 (drop_bit 24 w)) :: byte)) = (w :: u32)"
  (is "?lhs = w")
proof (rule bit_word_eqI)
  fix n assume "n < LENGTH(32)"
  then have n: "n < 32" by simp
  consider "n < 8" | "8 \<le> n" "n < 16" | "16 \<le> n" "n < 24" | "24 \<le> n" "n < 32"
    using n by linarith
  then show "bit ?lhs n = bit w n"
    by cases (auto simp: bit_simps)
qed

lemma header_length_frame: "header_length (t # le32 w @ le32 c @ rest) = w"
  unfolding header_length_def le32_def
  by (simp add: and_ff32 le32_assemble)

lemma header_checksum_frame: "header_checksum (t # le32 w @ le32 c @ rest) = c"
  unfolding header_checksum_def le32_def
  by (simp add: and_ff32 le32_assemble)

lemma unat_of_nat_len32: "n < 2 ^ 32 \<Longrightarrow> unat (of_nat n :: u32) = n"
  by (simp add: unat_of_nat)

subsection \<open>One step of the replay loop on a whole record\<close>

lemma frame_split:
  "frame t p c @ rest = (t # le32 (of_nat (length p)) @ le32 c) @ (p @ rest)"
  by (simp add: frame_def)

lemma replay_loop_frame:
  assumes len: "length p < 2 ^ 32"
  shows "replay_loop ctx (frame t p c @ rest) =
           (if appendfs_crc32 p \<noteq> c then replay_loop ctx rest
            else replay_loop (apply_record ctx t p) rest)"
proof -
  let ?hdr = "t # le32 (of_nat (length p)) @ le32 c"
  have hl: "length ?hdr = 9" by simp
  have tk: "take RECORD_HEADER_SIZE (frame t p c @ rest) = ?hdr"
    by (simp add: frame_def RECORD_HEADER_SIZE_def)
  have dr: "drop RECORD_HEADER_SIZE (frame t p c @ rest) = p @ rest"
    by (simp add: frame_def RECORD_HEADER_SIZE_def)
  have hlen: "unat (header_length ?hdr) = length p"
    using header_length_frame [of t "of_nat (length p)" c "[]"] len
    by (simp add: unat_of_nat_len32)
  have hck: "header_checksum ?hdr = c"
    using header_checksum_frame [of t "of_nat (length p)" c "[]"] by simp
  have nz: "length (frame t p c @ rest) \<noteq> 0" "\<not> length (frame t p c @ rest) < RECORD_HEADER_SIZE"
    by (simp_all add: frame_def RECORD_HEADER_SIZE_def)
  have first: "(frame t p c @ rest) ! 0 = t" by (simp add: frame_def)
  show ?thesis
    by (subst replay_loop.simps) (simp only: nz tk dr hlen hck first, simp)
qed

lemma replay_loop_nil: "replay_loop ctx [] = ctx"
  by (subst replay_loop.simps) simp

lemma replay_loop_good_frames:
  "\<forall>r\<in>set rs. length (snd r) < 2 ^ 32 \<Longrightarrow>
   replay_loop ctx (good_frames rs @ rest) = replay_loop (apply_records ctx rs) rest"
proof (induction rs arbitrary: ctx)
  case Nil
  then show ?case by (simp add: good_frames_def apply_records_def)
next
  case (Cons r rs)
  have "good_frames (r # rs) @ rest
          = frame (fst r) (snd r) (appendfs_crc32 (snd r)) @ (good_frames rs @ rest)"
    by (simp add: good_frames_def)
  moreover have "length (snd r) < 2 ^ 32" using Cons.prems by simp
  ultimately have "replay_loop ctx (good_frames (r # rs) @ rest)
          = replay_loop (apply_record ctx (fst r) (snd r)) (good_frames rs @ rest)"
    by (simp add: replay_loop_frame)
  also have "\<dots> = replay_loop (apply_records (apply_record ctx (fst r) (snd r)) rs) rest"
    using Cons.IH Cons.prems by simp
  finally show ?case by (simp add: apply_records_def)
qed

lemma apply_records_append:
  "apply_records ctx (xs @ ys) = apply_records (apply_records ctx xs) ys"
  by (simp add: apply_records_def)

text \<open>
  Claim C5.  A record whose payload checksum differs from the checksum in its
  header is skipped, and only that record: replaying a log that holds records
  with correct checksums, then the bad record, then further records with correct
  checksums (and whatever bytes follow) gives what replaying the same log
  without the bad record gives, so every record before it and every record after
  it is applied.
\<close>

theorem replay_skips_bad_checksum:
  assumes pre: "\<forall>r\<in>set before. length (snd r) < 2 ^ 32"
      and post: "\<forall>r\<in>set after. length (snd r) < 2 ^ 32"
      and len: "length p < 2 ^ 32"
      and bad: "appendfs_crc32 p \<noteq> c"
  shows "replay_loop ctx (good_frames before @ frame t p c @ good_frames after @ rest)
           = replay_loop (apply_records ctx (before @ after)) rest"
proof -
  have "replay_loop ctx (good_frames before @ frame t p c @ good_frames after @ rest)
          = replay_loop (apply_records ctx before) (frame t p c @ good_frames after @ rest)"
    using pre by (rule replay_loop_good_frames)
  also have "\<dots> = replay_loop (apply_records ctx before) (good_frames after @ rest)"
    using len bad by (simp add: replay_loop_frame)
  also have "\<dots> = replay_loop (apply_records (apply_records ctx before) after) rest"
    using post by (rule replay_loop_good_frames)
  finally show ?thesis by (simp add: apply_records_append)
qed

subsection \<open>Replay leaves the log as it is\<close>

lemma set_inode_meta [simp]: "meta_fd (set_inode ctx i ino) = meta_fd ctx"
  by (simp add: set_inode_def)

lemma replay_extent_meta: "meta_fd (replay_extent ctx p) = meta_fd ctx"
  by (simp add: replay_extent_def Let_def split: option.splits)

lemma replay_truncate_meta: "meta_fd (replay_truncate ctx p) = meta_fd ctx"
  by (simp add: replay_truncate_def Let_def split: option.splits)

lemma replay_unlink_meta: "meta_fd (replay_unlink ctx p) = meta_fd ctx"
  by (simp add: replay_unlink_def Let_def split: option.splits)

lemma replay_rename_meta: "meta_fd (replay_rename ctx p) = meta_fd ctx"
  by (simp add: replay_rename_def Let_def split: option.splits)

lemma replay_setxattr_meta: "meta_fd (replay_setxattr ctx p) = meta_fd ctx"
  by (simp add: replay_setxattr_def Let_def split: option.splits sum.splits)

lemma replay_removexattr_meta: "meta_fd (replay_removexattr ctx p) = meta_fd ctx"
  by (simp add: replay_removexattr_def Let_def split: option.splits sum.splits)

lemma replay_times_meta: "meta_fd (replay_times ctx p) = meta_fd ctx"
  by (simp add: replay_times_def Let_def split: option.splits)

lemma replay_create_meta: "meta_fd (replay_create ctx p) = meta_fd ctx"
  by (simp add: replay_create_def Let_def split: option.splits prod.splits)

lemma apply_record_meta: "meta_fd (apply_record ctx t p) = meta_fd ctx"
  by (simp add: apply_record_def replay_extent_meta replay_truncate_meta replay_unlink_meta
        replay_rename_meta replay_setxattr_meta replay_removexattr_meta replay_times_meta
        replay_create_meta)

lemma replay_loop_meta: "meta_fd (replay_loop ctx bs) = meta_fd ctx"
proof (induction ctx bs rule: replay_loop.induct)
  case (1 ctx bs)
  show ?case
    by (subst replay_loop.simps) (simp add: "1.IH" apply_record_meta del: drop_drop)
qed

text \<open>
  Claim C10.  A write of size zero returns 0 and changes nothing: the open file
  (buffer, \<open>buffer_offset\<close>, \<open>buffer_used\<close>, \<open>position\<close>) and the context (inodes and
  both backing files) are returned as they were given; the position is not set
  to the offset.
\<close>

theorem write_zero_changes_nothing: "appendfs_write (file, ctx) buf 0 offset = Some (Inr 0, file, ctx)"
  by (simp add: appendfs_write_def)

lemma take_append_fit: "length h \<le> r \<Longrightarrow> take r h @ take (r - length h) q = take r (h @ q)"
  by simp

lemma take_append_short: "\<not> length h \<le> r \<Longrightarrow> take r h = take r (h @ q)"
  by simp

lemma write_all_contents:
  assumes "at_end f"
  shows "contents (snd (write_all f bs)) = contents f @ take (room f) bs
         \<and> at_end (snd (write_all f bs))
         \<and> room (snd (write_all f bs)) = room f - length bs"
  using assms by (simp add: write_all_cases at_end_def write_at_def)

lemma write_record_meta:
  "meta_fd (snd (write_record ctx t p l)) =
     (let hdr = t # le32 l @ le32 (appendfs_crc32 (take (unat l) p))
      in if length hdr \<le> room (meta_fd ctx)
         then snd (write_all (snd (write_all (meta_fd ctx) hdr)) (take (unat l) p))
         else snd (write_all (meta_fd ctx) hdr))"
  by (simp add: write_record_def Let_def write_all_cases)

lemma write_record_contents:
  assumes e: "at_end (meta_fd ctx)"
  shows "contents (meta_fd (snd (write_record ctx t p (of_nat (length p)))))
           = contents (meta_fd ctx) @ take (room (meta_fd ctx)) (record_bytes t p)"
proof -
  let ?l = "of_nat (length p) :: u32"
  let ?pl = "take (unat ?l) p"
  let ?hdr = "t # le32 ?l @ le32 (appendfs_crc32 ?pl)"
  let ?f = "meta_fd ctx"
  have rb: "record_bytes t p = ?hdr @ ?pl" by (simp add: record_bytes_def)
  have h9: "length ?hdr = 9" by simp
  note w1 = write_all_contents [OF e, of ?hdr]
  show ?thesis
  proof (cases "length ?hdr \<le> room ?f")
    case True
    from w1 have e1: "at_end (snd (write_all ?f ?hdr))" by simp
    note w2 = write_all_contents [OF e1, of ?pl]
    have "contents (meta_fd (snd (write_record ctx t p ?l)))
            = contents (snd (write_all (snd (write_all ?f ?hdr)) ?pl))"
      using True by (simp add: write_record_meta Let_def)
    also have "\<dots> = (contents ?f @ take (room ?f) ?hdr) @ take (room ?f - length ?hdr) ?pl"
      using w1 w2 by simp
    also have "\<dots> = contents ?f @ take (room ?f) (?hdr @ ?pl)"
      by (simp only: append_assoc take_append_fit [OF True])
    finally show ?thesis by (simp only: rb)
  next
    case False
    have "contents (meta_fd (snd (write_record ctx t p ?l)))
            = contents (snd (write_all ?f ?hdr))"
      using False by (simp add: write_record_meta Let_def)
    also have "\<dots> = contents ?f @ take (room ?f) ?hdr"
      using w1 by simp
    also have "\<dots> = contents ?f @ take (room ?f) (?hdr @ ?pl)"
      by (simp only: take_append_short [OF False, symmetric])
    finally show ?thesis by (simp only: rb)
  qed
qed

text \<open>
  Claim C4, as amended.  Replay never truncates the metadata log: whatever the
  log holds, damaged or torn records included, its bytes are the same after
  \<open>replay_metadata\<close> and the file offset is the raw end of the file; the next
  record is appended there, after every byte of the old log.
\<close>

theorem replay_keeps_log:
  "contents (meta_fd (snd (replay_metadata ctx))) = contents (meta_fd ctx)
   \<and> pos (meta_fd (snd (replay_metadata ctx))) = length (contents (meta_fd ctx))
   \<and> contents (meta_fd (snd (write_record (snd (replay_metadata ctx)) t p (of_nat (length p)))))
       = contents (meta_fd ctx) @ take (room (meta_fd ctx)) (record_bytes t p)"
proof -
  let ?c = "snd (replay_metadata ctx)"
  have m: "meta_fd ?c = lseek_end (meta_fd ctx)"
    by (simp add: replay_metadata_def Let_def replay_loop_meta)
  then have e: "at_end (meta_fd ?c)" by (simp add: at_end_def lseek_end_def)
  show ?thesis
    using write_record_contents [OF e, of t p] by (simp add: m lseek_end_def)
qed

subsection \<open>Replay at concrete logs\<close>

lemma record_d_bytes:
  "record_d = (6, [1,0,0,0,0,0,0,0, 0xED,0x41,0,0, 0,0,0,0,0,0,0,0,
                   0, 0xF1, 0x53, 0x65, 0, 0, 0, 0, 2,0,0,0, 0x2F, 0x64])"
  by (simp add: record_d_def create_payload_def dir_inode_def str_bytes_def le64_def le32_def
        APPENDFS_RECORD_MKDIR_def)

lemma record_f_bytes:
  "record_f = (1, [2,0,0,0,0,0,0,0, 0xA4,0x81,0,0, 0,0,0,0,0,0,0,0,
                   0, 0xF1, 0x53, 0x65, 0, 0, 0, 0, 2,0,0,0, 0x2F, 0x66])"
  by (simp add: record_f_def create_payload_def file_inode_def str_bytes_def le64_def le32_def
        APPENDFS_RECORD_CREATE_def)

lemma record_g_bytes:
  "record_g = (1, [3,0,0,0,0,0,0,0, 0xA4,0x81,0,0, 0,0,0,0,0,0,0,0,
                   0, 0xF1, 0x53, 0x65, 0, 0, 0, 0, 2,0,0,0, 0x2F, 0x67])"
  by (simp add: record_g_def create_payload_def file_inode_def str_bytes_def le64_def le32_def
        APPENDFS_RECORD_CREATE_def)

lemmas replay_eval = apply_records_def apply_record_def APPENDFS_RECORD_MKDIR_def
  APPENDFS_RECORD_CREATE_def replay_create_def rd64_def rd32_def le_word_def strndup_def
  char_of_def bit_Suc_0_iff Let_def find_inode_by_id_def set_inode_def zero_inode_def
  S_ISLNK_def S_IFMT_def S_IFLNK_def

lemma replay_d_g:
  "inodes (apply_records (empty_store 0) [record_d, record_g])
     = [dir_inode 1 ''/d'', file_inode 3 ''/g'' 0 []]"
  apply (simp only: record_d_bytes record_g_bytes)
  apply (simp add: replay_eval empty_store_def dir_inode_def file_inode_def)
  done

theorem replay_skips_bad_checksum_witness:
  "length (snd record_d) < 2 ^ 32 \<and> length (snd record_g) < 2 ^ 32
   \<and> length (snd record_f) < 2 ^ 32
   \<and> appendfs_crc32 (snd record_f) \<noteq> appendfs_crc32 (snd record_f) + 1
   \<and> inodes (replay_loop (empty_store 0)
         (good_frames [record_d]
            @ frame (fst record_f) (snd record_f) (appendfs_crc32 (snd record_f) + 1)
            @ good_frames [record_g] @ []))
       = [dir_inode 1 ''/d'', file_inode 3 ''/g'' 0 []]"
proof -
  have d: "length (snd record_d) < 2 ^ 32" by (simp add: record_d_bytes)
  have g: "length (snd record_g) < 2 ^ 32" by (simp add: record_g_bytes)
  have f: "length (snd record_f) < 2 ^ 32" by (simp add: record_f_bytes)
  have bad: "appendfs_crc32 (snd record_f) \<noteq> appendfs_crc32 (snd record_f) + 1" by simp
  have "replay_loop (empty_store 0)
          (good_frames [record_d]
             @ frame (fst record_f) (snd record_f) (appendfs_crc32 (snd record_f) + 1)
             @ good_frames [record_g] @ [])
        = replay_loop (apply_records (empty_store 0) ([record_d] @ [record_g])) []"
    using replay_skips_bad_checksum [of "[record_d]" "[record_g]" "snd record_f"
        "appendfs_crc32 (snd record_f) + 1" "empty_store 0" "fst record_f" "[]"] d g f bad
    by simp
  then show ?thesis
    using d g f bad by (simp add: replay_loop_nil replay_d_g)
qed

subsection \<open>The torn log\<close>

lemma torn_log_length: "length (good_frames [record_d]) = 43 \<and> length torn_log = 46"
  by (simp add: torn_log_def good_frames_def frame_def record_d_bytes)

lemma replay_loop_short: "length bs < 9 \<Longrightarrow> replay_loop ctx bs = ctx"
  by (subst replay_loop.simps) (simp add: RECORD_HEADER_SIZE_def)

lemma torn_store_eq:
  "torn_store =
     (apply_records
        \<lparr>data_fd = \<lparr>contents = [], pos = 0, room = 1000\<rparr>,
         meta_fd = \<lparr>contents = torn_log, pos = 0, room = 1000\<rparr>,
         next_inode_id = 1, inodes = [], write_buffer_size = APPENDFS_DEFAULT_BUFFER,
         clock = 1700000000\<rparr> [record_d])
       \<lparr>meta_fd := \<lparr>contents = torn_log, pos = 46, room = 1000\<rparr>\<rparr>"
proof -
  let ?c = "\<lparr>data_fd = \<lparr>contents = [], pos = 0, room = 1000\<rparr>,
         meta_fd = \<lparr>contents = torn_log, pos = 0, room = 1000\<rparr>,
         next_inode_id = 1, inodes = [], write_buffer_size = APPENDFS_DEFAULT_BUFFER,
         clock = 1700000000\<rparr>"
  have r: "\<forall>r\<in>set [record_d]. length (snd r) < 2 ^ 32" by (simp add: record_d_bytes)
  have "replay_loop ?c torn_log = replay_loop (apply_records ?c [record_d]) [1, 2, 3]"
    unfolding torn_log_def using r by (rule replay_loop_good_frames)
  then have l: "replay_loop ?c torn_log = apply_records ?c [record_d]"
    by (simp add: replay_loop_short)
  have m: "meta_fd (apply_records ?c [record_d]) = meta_fd ?c"
    by (simp add: apply_records_def apply_record_meta)
  show ?thesis
    by (simp add: torn_store_def appendfs_open_def replay_metadata_def Let_def l m lseek_end_def
          torn_log_length)
qed

lemma replay_d_only:
  "inodes (apply_records
        \<lparr>data_fd = df, meta_fd = mf,
         next_inode_id = 1, inodes = [], write_buffer_size = w,
         clock = t\<rparr> [record_d]) = [dir_inode 1 ''/d'']
  \<and> next_inode_id (apply_records
        \<lparr>data_fd = df, meta_fd = mf,
         next_inode_id = 1, inodes = [], write_buffer_size = w,
         clock = t\<rparr> [record_d]) = 2
  \<and> clock (apply_records
        \<lparr>data_fd = df, meta_fd = mf,
         next_inode_id = 1, inodes = [], write_buffer_size = w,
         clock = t\<rparr> [record_d]) = t"
  apply (simp only: record_d_bytes)
  apply (simp add: replay_eval dir_inode_def)
  done

lemma torn_len [simp]: "length torn_log = 46"
  by (simp add: torn_log_length)

theorem replay_torn_log_counterexample:
  "length (good_frames [record_d]) = 43
   \<and> contents (meta_fd torn_store) = good_frames [record_d] @ [1, 2, 3]
   \<and> pos (meta_fd torn_store) = 46
   \<and> contents (meta_fd (snd (appendfs_mkdirs torn_store ''/e'' 0x1ED)))
       = good_frames [record_d] @ [1, 2, 3]
           @ record_bytes APPENDFS_RECORD_MKDIR (create_payload (dir_inode 2 ''/e''))"
proof -
  have a: "length (good_frames [record_d]) = 43" using torn_log_length by simp
  have b: "contents (meta_fd torn_store) = good_frames [record_d] @ [1, 2, 3]"
    by (simp add: torn_store_eq torn_log_def)
  have c: "pos (meta_fd torn_store) = 46" by (simp add: torn_store_eq)
  have f: "find_inode_by_path torn_store ''/e'' = None"
    by (simp add: torn_store_eq find_inode_by_path_def replay_d_only dir_inode_def
          normalize_path_view_def starts_slash_def path_match_def)
  have d: "contents (meta_fd (snd (appendfs_mkdirs torn_store ''/e'' 0x1ED)))
       = torn_log @ record_bytes APPENDFS_RECORD_MKDIR (create_payload (dir_inode 2 ''/e''))"
    apply (simp add: appendfs_mkdirs_def f)
    apply (simp add: torn_store_eq create_inode_def replay_d_only normalize_path_copy_def
        starts_slash_def zero_inode_def S_IFDIR_def)
    apply (simp add: append_create_record_def write_record_def Let_def write_all_cases
        create_payload_def S_ISDIR_def S_IFMT_def S_IFDIR_def str_bytes_def
        record_bytes_def dir_inode_def write_at_def)
    done
  show ?thesis using a b c d by (simp add: torn_log_def)
qed

subsection \<open>Reading holes and overlapping extents\<close>

text \<open>
  Claim C1 fails on the code.  In the store of scenario S2 the first 1048576
  bytes of \<open>/h\<close> are a hole; reading 16 bytes at offset 0 returns 0 and leaves
  the buffer as it was (here sixteen bytes \<open>0xFF\<close>) instead of returning 16 zero
  bytes.  In a file of 8 bytes whose last four are written, reading 8 bytes at
  offset 0 returns 4 and stores the written bytes at the start of the buffer,
  not at their position 4.
\<close>

theorem read_hole_not_zero_filled:
  "appendfs_read hole_store ''/h'' (replicate 16 0xFF) 16 0
     = (Inr 0, replicate 16 0xFF, hole_store)
   \<and> appendfs_read tail_store ''/t'' (replicate 8 0xFF) 8 0
       = (Inr 4, [1, 2, 3, 4] @ replicate 4 0xFF,
          set_inode tail_store 0 ((inodes tail_store ! 0)\<lparr>atime := clock tail_store\<rparr>))"
  by (simp add: appendfs_read_def find_inode_by_path_def hole_store_def tail_store_def
        store_of_def file_inode_def
        normalize_path_view_def starts_slash_def path_match_def sys_pread_def memcpy_at_def)

text \<open>
  Claim C2 fails on the code.  In the store of scenario S3 the file \<open>/o\<close> has the
  extent of the first flush (1024 bytes \<open>0x11\<close> at offset 0) and the extent of
  the second (512 bytes \<open>0x22\<close> at offset 256); reading 1024 bytes at offset 0
  returns 1024 bytes \<open>0x11\<close>: the first flush wins.
\<close>

theorem read_overlap_first_flush_wins:
  "appendfs_read overlap_store ''/o'' (replicate 1024 0) 1024 0
     = (Inr 1024, replicate 1024 0x11,
        set_inode overlap_store 0 ((inodes overlap_store ! 0)\<lparr>atime := clock overlap_store\<rparr>))"
  by (simp add: appendfs_read_def find_inode_by_path_def overlap_store_def
        store_of_def file_inode_def
        normalize_path_view_def starts_slash_def path_match_def sys_pread_def memcpy_at_def)

subsection \<open>Failure of the record append in unlink and truncate\<close>

lemma full_find: "find_inode_by_path full_store ''/f'' = Some 0"
  by (simp add: find_inode_by_path_def full_store_def store_of_def file_inode_def
        normalize_path_view_def starts_slash_def path_match_def)

lemma full_row: "inodes full_store ! 0
   = file_inode 1 ''/f'' 10 [\<lparr>logical_offset = 0, length_f = 10, data_offset = 0\<rparr>]"
  by (simp add: full_store_def store_of_def)

lemma unlink_full:
  "appendfs_unlink full_store ''/f''
     = (Inl ENOSPC, set_inode full_store 0 ((inodes full_store ! 0)\<lparr>deleted := True\<rparr>))"
  apply (simp add: appendfs_unlink_def full_find)
  apply (simp add: full_row file_inode_def S_ISDIR_def S_IFMT_def S_IFDIR_def)
  apply (simp add: append_unlink_record_def write_record_def Let_def write_all_cases
      set_inode_def full_store_def store_of_def write_at_def)
  done

lemma stat_full:
  "appendfs_stat full_store ''/f'' =
     Inr \<lparr>st_mode = 0x81A4, st_size = 10, st_ctime = 1700000000, st_mtime = 1700000000,
          st_atime = 1700000000, st_nlink = 1, st_ino = 1\<rparr>"
  by (simp add: appendfs_stat_def full_find full_row file_inode_def)

lemma stat_after_unlink:
  "appendfs_stat (snd (appendfs_unlink full_store ''/f'')) ''/f'' = Inl ENOENT"
  apply (simp only: unlink_full snd_conv)
  apply (simp add: appendfs_stat_def find_inode_by_path_def set_inode_def full_store_def
      store_of_def file_inode_def normalize_path_view_def starts_slash_def path_match_def)
  done

lemma truncate_full:
  "appendfs_truncate full_store ''/f'' 3
     = (Inl ENOSPC, set_inode full_store 0 ((inodes full_store ! 0)\<lparr>size_f := 3\<rparr>))"
  apply (simp add: appendfs_truncate_def full_find)
  apply (simp add: full_row file_inode_def S_ISREG_def S_IFMT_def S_IFREG_def)
  apply (simp add: append_truncate_record_def write_record_def Let_def write_all_cases
      set_inode_def full_store_def store_of_def write_at_def)
  done

lemma stat_after_truncate:
  "appendfs_stat (snd (appendfs_truncate full_store ''/f'' 3)) ''/f'' =
     Inr \<lparr>st_mode = 0x81A4, st_size = 3, st_ctime = 1700000000, st_mtime = 1700000000,
          st_atime = 1700000000, st_nlink = 1, st_ino = 1\<rparr>"
  apply (simp only: truncate_full snd_conv)
  apply (simp add: appendfs_stat_def find_inode_by_path_def set_inode_def full_store_def
      store_of_def file_inode_def normalize_path_view_def starts_slash_def path_match_def)
  done

text \<open>
  Claim C3 fails on the code.  When the metadata log accepts no more bytes,
  \<open>unlink\<close> of the file \<open>/f\<close> fails, yet the inode is left tombstoned, so that
  \<open>stat\<close> no longer finds the file; and \<open>truncate\<close> of \<open>/f\<close> to 3 fails, yet the
  size of the file is left at 3 instead of 10.  Neither restores the state it
  changed, nor records a compensating change.
\<close>

theorem unlink_truncate_fail_without_rollback:
  "appendfs_stat full_store ''/f'' =
     Inr \<lparr>st_mode = 0x81A4, st_size = 10, st_ctime = 1700000000, st_mtime = 1700000000,
          st_atime = 1700000000, st_nlink = 1, st_ino = 1\<rparr>
   \<and> appendfs_unlink full_store ''/f''
       = (Inl ENOSPC, set_inode full_store 0 ((inodes full_store ! 0)\<lparr>deleted := True\<rparr>))
   \<and> appendfs_stat (snd (appendfs_unlink full_store ''/f'')) ''/f'' = Inl ENOENT
   \<and> appendfs_truncate full_store ''/f'' 3
       = (Inl ENOSPC, set_inode full_store 0 ((inodes full_store ! 0)\<lparr>size_f := 3\<rparr>))
   \<and> appendfs_stat (snd (appendfs_truncate full_store ''/f'' 3)) ''/f'' =
       Inr \<lparr>st_mode = 0x81A4, st_size = 3, st_ctime = 1700000000, st_mtime = 1700000000,
            st_atime = 1700000000, st_nlink = 1, st_ino = 1\<rparr>"
  by (intro conjI stat_full unlink_full stat_after_unlink truncate_full stat_after_truncate)

subsection \<open>The mode of a created file\<close>

text \<open>
  Claim C8 fails on the code.  \<open>create_file\<close> with the mode 040644 (the type
  bits of a directory and 0644) succeeds and leaves the mode 0140644, which is
  not the mode of a regular file, where the claim has
  \<open>S_IFREG | (mode & 07777)\<close>, that is 0100644: the mode argument is not masked.
\<close>

theorem create_file_keeps_type_bits:
  "fst (appendfs_create_file (empty_store 1000) ''/f'' 0x41A4) = Inr ()
   \<and> map mode (inodes (snd (appendfs_create_file (empty_store 1000) ''/f'' 0x41A4))) = [0xC1A4]
   \<and> \<not> S_ISREG 0xC1A4
   \<and> S_IFREG OR (0x41A4 AND 0xFFF) = 0x81A4"
  apply (simp add: appendfs_create_file_def find_inode_by_path_def empty_store_def Let_def
       normalize_path_copy_def normalize_path_view_def starts_slash_def split_path_def
       parent_missing_def create_inode_def set_inode_def zero_inode_def S_IFREG_def
       S_ISREG_def S_IFMT_def)
  apply (simp add: append_create_record_def write_record_def Let_def write_all_cases
       create_payload_def S_ISDIR_def S_IFMT_def S_IFDIR_def str_bytes_def)
  done

subsection \<open>Linear scans\<close>


lemma find_first_Some:
  "find_first P xs = Some k \<Longrightarrow> k < length xs \<and> P (xs ! k) \<and> (\<forall>j<k. \<not> P (xs ! j))"
proof (induction xs arbitrary: k)
  case Nil
  then show ?case by simp
next
  case (Cons x xs)
  show ?case
  proof (cases "P x")
    case True
    with Cons.prems show ?thesis by simp
  next
    case False
    with Cons.prems obtain k' where k': "find_first P xs = Some k'" "k = Suc k'"
      by auto
    from Cons.IH [OF k'(1)] False k'(2) show ?thesis
      by (auto simp: less_Suc_eq_0_disj)
  qed
qed



subsection \<open>Normalised paths\<close>

lemma starts_slash_normalize [simp]: "starts_slash (normalize_path_copy p)"
  by (simp add: normalize_path_copy_def starts_slash_def)

lemma normalize_path_view_eq: "normalize_path_view p = normalize_path_copy p"
  by (simp add: normalize_path_view_def normalize_path_copy_def)

lemma normalize_path_copy_idem [simp]:
  "normalize_path_copy (normalize_path_copy p) = normalize_path_copy p"
  by (simp add: normalize_path_copy_def [of "normalize_path_copy p"])

lemma find_inode_by_path_normalize [simp]:
  "find_inode_by_path ctx (normalize_path_copy p) = find_inode_by_path ctx p"
  by (simp add: find_inode_by_path_def normalize_path_view_eq)

subsection \<open>Appending records\<close>

lemma write_record_inodes [simp]: "inodes (snd (write_record ctx t p l)) = inodes ctx"
  by (subst write_record_frame) simp

lemma write_record_next [simp]:
  "next_inode_id (snd (write_record ctx t p l)) = next_inode_id ctx"
  by (subst write_record_frame) simp

lemma write_record_clock [simp]: "clock (snd (write_record ctx t p l)) = clock ctx"
  by (subst write_record_frame) simp

lemma write_record_data [simp]: "data_fd (snd (write_record ctx t p l)) = data_fd ctx"
  by (subst write_record_frame) simp

lemma write_record_fits:
  "9 + length p \<le> room (meta_fd ctx) \<Longrightarrow> fst (write_record ctx t p l) = Inr ()"
  by (simp add: write_record_ok_iff)

lemma create_payload_plain:
  "symlink_target ino = None \<Longrightarrow> length (create_payload ino) = 32 + length (path ino)"
  by (simp add: create_payload_def str_bytes_def)

subsection \<open>mkdirs and mkdir\<close>

text \<open>
  Claim C9 fails on the code at two inputs where no live inode is at the path.
  On a log that accepts no more bytes \<open>mkdirs\<close> gives up the row it added and
  fails with \<open>ENOSPC\<close>.  With the mode 0100644 (the type bits of a regular file
  and 0644) \<open>mkdirs\<close> succeeds and leaves the mode 0140644, which is not the mode
  of a directory: the mode argument is not masked.
\<close>

theorem mkdirs_full_log_and_type_bits_counterexample:
  "find_inode_by_path (empty_store 0) ''/a/b'' = None
   \<and> fst (appendfs_mkdirs (empty_store 0) ''/a/b'' 0x1ED) = Inl ENOSPC
   \<and> inodes (snd (appendfs_mkdirs (empty_store 0) ''/a/b'' 0x1ED)) = []
   \<and> find_inode_by_path (empty_store 1000) ''/s'' = None
   \<and> fst (appendfs_mkdirs (empty_store 1000) ''/s'' 0x81A4) = Inr ()
   \<and> map mode (inodes (snd (appendfs_mkdirs (empty_store 1000) ''/s'' 0x81A4))) = [0xC1A4]
   \<and> \<not> S_ISDIR 0xC1A4"
proof -
  have a: "find_inode_by_path (empty_store 0) ''/a/b'' = None"
    by (simp add: find_inode_by_path_def empty_store_def)
  have b: "fst (appendfs_mkdirs (empty_store 0) ''/a/b'' 0x1ED) = Inl ENOSPC
           \<and> inodes (snd (appendfs_mkdirs (empty_store 0) ''/a/b'' 0x1ED)) = []"
    apply (simp add: appendfs_mkdirs_def find_inode_by_path_def empty_store_def Let_def
         create_inode_def zero_inode_def S_IFDIR_def)
    apply (simp add: append_create_record_def write_record_def Let_def write_all_cases
         drop_last_inode_def)
    done
  have c: "find_inode_by_path (empty_store 1000) ''/s'' = None"
    by (simp add: find_inode_by_path_def empty_store_def)
  have d: "fst (appendfs_mkdirs (empty_store 1000) ''/s'' 0x81A4) = Inr ()
           \<and> map mode (inodes (snd (appendfs_mkdirs (empty_store 1000) ''/s'' 0x81A4))) = [0xC1A4]"
    apply (simp add: appendfs_mkdirs_def find_inode_by_path_def empty_store_def Let_def
         create_inode_def zero_inode_def S_IFDIR_def normalize_path_copy_def starts_slash_def)
    apply (simp add: append_create_record_def write_record_def Let_def write_all_cases
         create_payload_def S_ISDIR_def S_IFMT_def S_IFDIR_def str_bytes_def)
    done
  have e: "\<not> S_ISDIR 0xC1A4"
    by (simp add: S_ISDIR_def S_IFMT_def S_IFDIR_def)
  from a b c d e show ?thesis by simp
qed

lemma S_ISDIR_or:
  "md AND S_IFMT = 0 \<or> md AND S_IFMT = S_IFDIR \<Longrightarrow> S_ISDIR (S_IFDIR OR md)"
  by (auto simp add: S_ISDIR_def bit.conj_disj_distrib2 S_IFMT_def S_IFDIR_def)

text \<open>
  Claim C9, as amended.  \<open>mkdirs\<close> makes no test on the parent: whenever no live
  inode is at the (normalised) path, the mode argument carries no file type or
  the type of a directory, and the log has room for the record, it adds a live
  directory row with the next inode id and succeeds, whatever the parent is;
  \<open>mkdir\<close> on the same state fails with \<open>ENOENT\<close> and changes nothing when the
  parent of the path is not the root and has no live directory inode.
\<close>

theorem mkdirs_no_parent_check:
  assumes none: "find_inode_by_path ctx p = None"
      and perm: "md AND S_IFMT = 0 \<or> md AND S_IFMT = S_IFDIR"
      and fits: "41 + length (normalize_path_copy p) \<le> room (meta_fd ctx)"
  shows "fst (appendfs_mkdirs ctx p md) = Inr ()
         \<and> inodes (snd (appendfs_mkdirs ctx p md))
             = inodes ctx
                 @ [zero_inode\<lparr>inode_id := next_inode_id ctx, path := normalize_path_copy p,
                      mode := S_IFDIR OR md, ctime := clock ctx, mtime := clock ctx,
                      atime := clock ctx\<rparr>]
         \<and> S_ISDIR (mode (last (inodes (snd (appendfs_mkdirs ctx p md)))))
         \<and> \<not> deleted (last (inodes (snd (appendfs_mkdirs ctx p md))))
         \<and> (\<forall>parent name. p \<noteq> [] \<and> p \<noteq> ''/''
                \<and> split_path (normalize_path_copy p) = Inr (parent, name)
                \<and> parent_missing ctx parent
              \<longrightarrow> appendfs_mkdir ctx p md = (Inl ENOENT, ctx))"
proof -
  let ?row = "zero_inode\<lparr>inode_id := next_inode_id ctx, path := normalize_path_copy p,
                mode := S_IFDIR OR md, ctime := clock ctx, mtime := clock ctx,
                atime := clock ctx\<rparr>"
  let ?ctx1 = "ctx\<lparr>inodes := inodes ctx @ [?row], next_inode_id := next_inode_id ctx + 1\<rparr>"
  have ci: "create_inode ctx p (S_IFDIR OR md) = (?ctx1, length (inodes ctx))"
    by (simp add: create_inode_def zero_inode_def)
  have row: "inodes ?ctx1 ! length (inodes ctx) = ?row" by simp
  have len: "length (create_payload ?row) = 32 + length (normalize_path_copy p)"
    by (simp add: create_payload_plain zero_inode_def)
  let ?w = "write_record ?ctx1
              (if S_ISDIR (mode ?row) then APPENDFS_RECORD_MKDIR else APPENDFS_RECORD_CREATE)
              (create_payload ?row) (of_nat (length (create_payload ?row)))"
  have okw: "fst ?w = Inr ()"
    by (rule write_record_fits) (use fits len in simp)
  have inw: "inodes (snd ?w) = inodes ctx @ [?row]" by simp
  have app: "append_create_record ?ctx1 ?row = ?w"
    by (simp add: append_create_record_def Let_def)
  have weq: "?w = (Inr (), snd ?w)"
    using okw by (cases ?w) simp
  have "appendfs_mkdirs ctx p md =
          (case append_create_record ?ctx1 ?row of
             (Inl e, ctx2) \<Rightarrow> (Inl e, drop_last_inode ctx2)
           | (Inr u, ctx2) \<Rightarrow> (Inr (), ctx2))"
    using none by (simp add: appendfs_mkdirs_def ci)
  also have "\<dots> = (Inr (), snd ?w)"
    by (subst app, subst weq) simp
  finally have m: "appendfs_mkdirs ctx p md = (Inr (), snd ?w)" .
  have ty: "S_ISDIR (mode ?row)"
    using S_ISDIR_or [OF perm] by simp
  have lv: "\<not> deleted ?row"
    by (simp add: zero_inode_def)
  have d: "appendfs_mkdir ctx p md = (Inl ENOENT, ctx)"
    if "p \<noteq> []" "p \<noteq> ''/''" "split_path (normalize_path_copy p) = Inr (parent, name)"
       "parent_missing ctx parent" for parent name
    using that none by (simp add: appendfs_mkdir_def Let_def)
  show ?thesis
    using m inw ty lv d by simp
qed

theorem mkdirs_no_parent_check_witness:
  "find_inode_by_path (empty_store 1000) ''/a/b'' = None
   \<and> (0x1ED AND S_IFMT = 0 \<or> 0x1ED AND S_IFMT = S_IFDIR)
   \<and> 41 + length (normalize_path_copy ''/a/b'') \<le> room (meta_fd (empty_store 1000))
   \<and> split_path (normalize_path_copy ''/a/b'') = Inr (''/a'', ''b'')
   \<and> parent_missing (empty_store 1000) ''/a''
   \<and> fst (appendfs_mkdirs (empty_store 1000) ''/a/b'' 0x1ED) = Inr ()
   \<and> live_paths (snd (appendfs_mkdirs (empty_store 1000) ''/a/b'' 0x1ED)) = [''/a/b'']
   \<and> map mode (inodes (snd (appendfs_mkdirs (empty_store 1000) ''/a/b'' 0x1ED))) = [0x41ED]
   \<and> S_ISDIR (mode (last (inodes (snd (appendfs_mkdirs (empty_store 1000) ''/a/b'' 0x1ED)))))
   \<and> appendfs_mkdir (empty_store 1000) ''/a/b'' 0x1ED = (Inl ENOENT, empty_store 1000)"
proof -
  have h1: "find_inode_by_path (empty_store 1000) ''/a/b'' = None"
    by (simp add: find_inode_by_path_def empty_store_def)
  have h0: "(0x1ED::u32) AND S_IFMT = 0 \<or> (0x1ED::u32) AND S_IFMT = S_IFDIR"
    by (simp add: S_IFMT_def)
  have h2: "41 + length (normalize_path_copy ''/a/b'') \<le> room (meta_fd (empty_store 1000))"
    by (simp add: normalize_path_copy_def starts_slash_def empty_store_def)
  have h3: "split_path (normalize_path_copy ''/a/b'') = Inr (''/a'', ''b'')"
    by (simp add: normalize_path_copy_def starts_slash_def split_path_def)
  have h4: "parent_missing (empty_store 1000) ''/a''"
    by (simp add: parent_missing_def find_inode_by_path_def empty_store_def)
  note t = mkdirs_no_parent_check [OF h1 h0 h2]
  from t h3 h4 have m: "appendfs_mkdir (empty_store 1000) ''/a/b'' 0x1ED
                          = (Inl ENOENT, empty_store 1000)"
    by simp
  from t have l: "live_paths (snd (appendfs_mkdirs (empty_store 1000) ''/a/b'' 0x1ED)) = [''/a/b'']"
    by (simp add: live_paths_def empty_store_def zero_inode_def normalize_path_copy_def
          starts_slash_def)
  from t have mo: "map mode (inodes (snd (appendfs_mkdirs (empty_store 1000) ''/a/b'' 0x1ED)))
                     = [0x41ED]"
    by (simp add: empty_store_def zero_inode_def S_IFDIR_def)
  from t have ty: "S_ISDIR (mode (last (inodes (snd (appendfs_mkdirs (empty_store 1000) ''/a/b''
                                                       0x1ED)))))"
    by (rule conjunct2 [THEN conjunct2, THEN conjunct1])
  from t h0 h1 h2 h3 h4 m l mo ty show ?thesis by simp
qed

subsection \<open>Extended attributes: undoing a mutation\<close>

lemma xattr_flag_bits [simp]:
  "XATTR_REPLACE AND XATTR_CREATE = 0" "XATTR_CREATE AND XATTR_REPLACE = 0"
  "XATTR_REPLACE AND XATTR_REPLACE \<noteq> 0" "XATTR_CREATE AND XATTR_CREATE \<noteq> 0"
  by (simp_all add: XATTR_REPLACE_def XATTR_CREATE_def)



lemma distinct_move_last: "distinct (a @ x # c) \<Longrightarrow> distinct (a @ c @ [x])"
  by auto





lemma set_inode_inodes [simp]: "inodes (set_inode ctx i ino) = (inodes ctx)[i := ino]"
  by (simp add: set_inode_def)











subsection \<open>Rename: the descendants of a path\<close>

lemma rename_selects_iff:
  "rename_selects ctx src A i \<longleftrightarrow>
     i \<noteq> src \<and> \<not> deleted (inodes ctx ! i) \<and> prefix (A @ ''/'') (path (inodes ctx ! i))"
proof -
  let ?p = "path (inodes ctx ! i)"
  have "path_is_prefix ?p A \<and> \<not> (length ?p \<le> length A \<or> ?p ! length A \<noteq> CHR ''/'')
          \<longleftrightarrow> prefix (A @ ''/'') ?p"
  proof
    assume l: "path_is_prefix ?p A \<and> \<not> (length ?p \<le> length A \<or> ?p ! length A \<noteq> CHR ''/'')"
    then have t: "take (length A) ?p = A"
      by (auto simp: path_is_prefix_def split: if_splits)
    from l have n: "length A < length ?p" "?p ! length A = CHR ''/''" by auto
    have "?p = take (length A) ?p @ ?p ! length A # drop (Suc (length A)) ?p"
      using n(1) by (rule id_take_nth_drop)
    then have "?p = (A @ ''/'') @ drop (Suc (length A)) ?p"
      using t n(2) by simp
    then show "prefix (A @ ''/'') ?p" by (metis prefixI)
  next
    assume "prefix (A @ ''/'') ?p"
    then obtain r where r: "?p = A @ ''/'' @ r" by (auto simp: prefix_def)
    show "path_is_prefix ?p A \<and> \<not> (length ?p \<le> length A \<or> ?p ! length A \<noteq> CHR ''/'')"
      by (simp add: r path_is_prefix_def nth_append)
  qed
  then show ?thesis by (auto simp: rename_selects_def)
qed

lemma rename_children_keys:
  "map fst (rename_children ctx src A B)
     = filter (rename_selects ctx src A) [0..<length (inodes ctx)]"
  by (simp add: rename_children_def comp_def)

lemma rename_children_distinct: "distinct (map fst (rename_children ctx src A B))"
  by (simp add: rename_children_keys)

lemma rename_children_map_of:
  "map_of (rename_children ctx src A B) j =
     (if j < length (inodes ctx) \<and> rename_selects ctx src A j
      then Some (B @ drop (length A) (path (inodes ctx ! j))) else None)"
  by (simp add: rename_children_def map_of_map_restrict restrict_map_def)

subsection \<open>Rename: the records appended\<close>

lemma append_rename_record_ok:
  assumes "append_rename_record ctx ino np = (Inr (), ctx1)"
  shows "inodes ctx1 = inodes ctx \<and> clock ctx1 = clock ctx
         \<and> (at_end (meta_fd ctx) \<longrightarrow>
              contents (meta_fd ctx1)
                = contents (meta_fd ctx)
                    @ record_bytes APPENDFS_RECORD_RENAME (rename_payload (inode_id ino) np)
              \<and> at_end (meta_fd ctx1))"
proof -
  let ?p = "rename_payload (inode_id ino) np"
  let ?w = "write_record ctx APPENDFS_RECORD_RENAME ?p (of_nat (length ?p))"
  from assms have w: "?w = (Inr (), ctx1)"
    by (simp add: append_rename_record_def Let_def)
  then have f: "fst ?w = Inr ()" and s: "snd ?w = ctx1" by simp_all
  have a: "inodes ctx1 = inodes ctx \<and> clock ctx1 = clock ctx"
    by (simp add: s [symmetric])
  show ?thesis
    using a write_record_appends [of ctx APPENDFS_RECORD_RENAME ?p] f s by simp
qed

lemma rename_apply_ok:
  assumes "rename_apply ctx ch = (Inr (), ctx')"
      and "distinct (map fst ch)"
      and "\<forall>c\<in>set ch. fst c < length (inodes ctx)"
      and "at_end (meta_fd ctx)"
  shows "length (inodes ctx') = length (inodes ctx)
         \<and> (\<forall>j<length (inodes ctx).
               inodes ctx' ! j =
                 (case map_of ch j of
                    None \<Rightarrow> inodes ctx ! j
                  | Some np \<Rightarrow> (inodes ctx ! j)\<lparr>path := np, deleted := False\<rparr>))
         \<and> contents (meta_fd ctx')
             = contents (meta_fd ctx) @ concat (map (\<lambda>c. rename_record ctx (fst c) (snd c)) ch)
         \<and> at_end (meta_fd ctx')"
  using assms
proof (induction ch arbitrary: ctx)
  case Nil
  then show ?case by simp
next
  case (Cons c rest)
  obtain i np where c: "c = (i, np)" by (cases c)
  let ?r = "append_rename_record ctx (inodes ctx ! i) np"
  obtain res ctx1 where r: "?r = (res, ctx1)" by (cases ?r)
  from Cons.prems(1) c r have res: "res = Inr ()"
    by (cases res) simp_all
  note ok = append_rename_record_ok [OF r [unfolded res]]
  let ?row = "(inodes ctx1 ! i)\<lparr>path := np, deleted := False\<rparr>"
  let ?ctx2 = "set_inode ctx1 i ?row"
  from Cons.prems(1) c r res have run: "rename_apply ?ctx2 rest = (Inr (), ctx')"
    by simp
  from Cons.prems(3) c have i: "i < length (inodes ctx)" by simp
  from Cons.prems(2) c have inotin: "i \<notin> fst ` set rest" and drest: "distinct (map fst rest)"
    by simp_all
  from ok have in1: "inodes ctx1 = inodes ctx" by simp
  have in2: "inodes ?ctx2 = (inodes ctx)[i := (inodes ctx ! i)\<lparr>path := np, deleted := False\<rparr>]"
    by (simp add: in1)
  have b2: "\<forall>c\<in>set rest. fst c < length (inodes ?ctx2)"
    using Cons.prems(3) in1 by simp
  have e2: "at_end (meta_fd ?ctx2)"
    using ok Cons.prems(4) by simp
  note ih = Cons.IH [OF run drest b2 e2]
  have len: "length (inodes ctx') = length (inodes ctx)"
    using ih in1 by simp
  have rows: "inodes ctx' ! j =
                 (case map_of (c # rest) j of
                    None \<Rightarrow> inodes ctx ! j
                  | Some np \<Rightarrow> (inodes ctx ! j)\<lparr>path := np, deleted := False\<rparr>)"
    if j: "j < length (inodes ctx)" for j
  proof (cases "j = i")
    case True
    have "map_of rest i = None"
      using inotin by (simp add: map_of_eq_None_iff)
    with ih in1 i True c show ?thesis by simp
  next
    case False
    with ih in1 j c show ?thesis by (simp split: option.splits)
  qed
  have recs: "map (\<lambda>c. rename_record ?ctx2 (fst c) (snd c)) rest
                = map (\<lambda>c. rename_record ctx (fst c) (snd c)) rest"
  proof (rule map_cong [OF refl])
    fix d assume "d \<in> set rest"
    with inotin have "fst d \<noteq> i" by auto
    then show "rename_record ?ctx2 (fst d) (snd d) = rename_record ctx (fst d) (snd d)"
      by (simp add: rename_record_def in1)
  qed
  from ih have l1: "contents (meta_fd ctx')
                      = contents (meta_fd ?ctx2)
                          @ concat (map (\<lambda>c. rename_record ?ctx2 (fst c) (snd c)) rest)"
    by blast
  have l2: "contents (meta_fd ?ctx2) = contents (meta_fd ctx) @ rename_record ctx i np"
    using ok Cons.prems(4) by (simp add: rename_record_def)
  have log: "contents (meta_fd ctx')
               = contents (meta_fd ctx) @ concat (map (\<lambda>c. rename_record ctx (fst c) (snd c)) (c # rest))"
    by (simp only: l1 l2 recs c) simp
  from ih have e': "at_end (meta_fd ctx')" by blast
  from len rows log e' show ?case by blast
qed

lemma rename_record_cong:
  "inode_id (inodes c1 ! i) = inode_id (inodes c2 ! i) \<Longrightarrow> rename_record c1 i x = rename_record c2 i x"
  by (simp add: rename_record_def)

lemma rename_move_ok:
  assumes run: "rename_move ctx src A B = (Inr (), ctx')"
      and src: "src < length (inodes ctx)"
      and e: "at_end (meta_fd ctx)"
      and dir: "S_ISDIR (mode (inodes ctx ! src))"
  shows "length (inodes ctx') = length (inodes ctx)
         \<and> (\<forall>j<length (inodes ctx).
               inodes ctx' ! j =
                 (if j = src
                  then (inodes ctx ! src)\<lparr>path := B, deleted := False, mtime := clock ctx\<rparr>
                  else if rename_selects ctx src A j
                  then (inodes ctx ! j)\<lparr>path := B @ drop (length A) (path (inodes ctx ! j)),
                                         deleted := False\<rparr>
                  else inodes ctx ! j))
         \<and> contents (meta_fd ctx')
             = contents (meta_fd ctx) @ rename_record ctx src B
                 @ concat (map (\<lambda>i. rename_record ctx i
                                       (B @ drop (length A) (path (inodes ctx ! i))))
                             (filter (rename_selects ctx src A) [0..<length (inodes ctx)]))"
proof -
  let ?n = "length (inodes ctx)"
  let ?ch = "rename_children ctx src A B"
  let ?f = "\<lambda>i. B @ drop (length A) (path (inodes ctx ! i))"
  let ?r = "append_rename_record ctx (inodes ctx ! src) B"
  obtain res ctx1 where r: "?r = (res, ctx1)" by (cases ?r)
  from run dir r have res: "res = Inr ()"
    by (cases res) (simp_all add: rename_move_def Let_def)
  note ok = append_rename_record_ok [OF r [unfolded res]]
  from ok have in1: "inodes ctx1 = inodes ctx" and ck: "clock ctx1 = clock ctx" by simp_all
  let ?row = "(inodes ctx ! src)\<lparr>path := B, deleted := False, mtime := clock ctx\<rparr>"
  let ?ctxa = "set_inode ctx1 src ?row"
  from run dir r res have ap: "rename_apply ?ctxa ?ch = (Inr (), ctx')"
    by (simp add: rename_move_def Let_def in1 ck)
  have ina: "inodes ?ctxa = (inodes ctx)[src := ?row]" by (simp add: in1)
  have bnd: "\<forall>c\<in>set ?ch. fst c < length (inodes ?ctxa)"
    by (auto simp add: rename_children_def in1)
  have ea: "at_end (meta_fd ?ctxa)" using ok e by simp
  note a = rename_apply_ok [OF ap rename_children_distinct bnd ea]
  have len: "length (inodes ctx') = ?n" using a by (simp add: in1)
  have rows: "inodes ctx' ! j =
                 (if j = src then ?row
                  else if rename_selects ctx src A j
                  then (inodes ctx ! j)\<lparr>path := ?f j, deleted := False\<rparr>
                  else inodes ctx ! j)" if j: "j < ?n" for j
  proof -
    from a j have "inodes ctx' ! j =
                 (case map_of ?ch j of
                    None \<Rightarrow> inodes ?ctxa ! j
                  | Some np \<Rightarrow> (inodes ?ctxa ! j)\<lparr>path := np, deleted := False\<rparr>)"
      by (simp add: in1)
    then show ?thesis
      using j src by (simp add: rename_children_map_of in1 rename_selects_def)
  qed
  have l1: "contents (meta_fd ctx')
              = contents (meta_fd ?ctxa)
                  @ concat (map (\<lambda>c. rename_record ?ctxa (fst c) (snd c)) ?ch)"
    using a by blast
  have l2: "contents (meta_fd ?ctxa) = contents (meta_fd ctx) @ rename_record ctx src B"
    using ok e by (simp add: rename_record_def)
  have ids: "inode_id (inodes ?ctxa ! i) = inode_id (inodes ctx ! i)" for i
    using src by (cases "i = src") (simp_all add: in1)
  have l3: "map (\<lambda>c. rename_record ?ctxa (fst c) (snd c)) ?ch
              = map (\<lambda>i. rename_record ctx i (?f i))
                  (filter (rename_selects ctx src A) [0..<?n])"
    by (simp add: rename_children_def comp_def rename_record_cong [OF ids])
  have log: "contents (meta_fd ctx')
             = contents (meta_fd ctx) @ rename_record ctx src B
                 @ concat (map (\<lambda>i. rename_record ctx i (?f i))
                             (filter (rename_selects ctx src A) [0..<?n]))"
    by (simp only: l1 l2 l3 append_assoc)
  from len rows log show ?thesis by blast
qed

lemma starts_slash_prefix:
  "starts_slash A \<Longrightarrow> prefix (A @ x) p \<Longrightarrow> starts_slash p"
  by (cases A) (auto simp: starts_slash_def prefix_def)

lemma moved_path_not_below:
  assumes ne: "A \<noteq> B" and nb: "\<not> prefix (A @ ''/'') B" and na: "\<not> prefix (B @ ''/'') A"
  shows "\<not> prefix (A @ ''/'') (B @ ''/'' @ r)"
proof
  assume "prefix (A @ ''/'') (B @ ''/'' @ r)"
  then have "prefix (A @ ''/'') B \<or> (\<exists>us. A @ ''/'' = B @ us \<and> prefix us (''/'' @ r))"
    by (simp add: prefix_append)
  with nb obtain us where us: "A @ ''/'' = B @ us" "prefix us (''/'' @ r)" by blast
  show False
  proof (cases us)
    case Nil
    with us(1) have "prefix (A @ ''/'') B" by simp
    with nb show False by simp
  next
    case (Cons u us')
    with us(2) have u: "u = CHR ''/''" by simp
    show False
    proof (cases us' rule: rev_cases)
      case Nil
      with us(1) Cons u have "A = B" by simp
      with ne show False by simp
    next
      case (snoc vs v)
      with us(1) Cons u have "A @ ''/'' = (B @ ''/'' @ vs) @ [v]" by simp
      then have "A = B @ ''/'' @ vs" by (simp only: append1_eq_conv)
      then have "prefix (B @ ''/'') A" by (simp add: prefix_def)
      with na show False by simp
    qed
  qed
qed

lemma find_inode_by_path_match:
  "find_inode_by_path ctx p = Some i \<Longrightarrow>
     i < length (inodes ctx) \<and> path_match (normalize_path_copy p) (inodes ctx ! i)"
  using find_first_Some [of "path_match (normalize_path_view p)" "inodes ctx" i]
  by (simp add: find_inode_by_path_def normalize_path_view_eq)

lemma path_match_not_below:
  assumes m: "path_match X row" and s: "starts_slash X" and nb: "\<not> prefix (A @ ''/'') X"
      and a: "starts_slash A"
  shows "\<not> prefix (A @ ''/'') (path row)"
proof
  assume p: "prefix (A @ ''/'') (path row)"
  with a have "starts_slash (path row)" by (rule starts_slash_prefix)
  with m s have "path row = X" by (auto simp: path_match_def)
  with p nb show False by simp
qed

lemma path_match_same:
  assumes "path_match X row" "path_match Y row" "starts_slash X" "starts_slash Y"
  shows "X = Y"
proof -
  from assms(3) obtain x where x: "X = CHR ''/'' # x"
    by (cases X) (auto simp: starts_slash_def)
  from assms(4) obtain y where y: "Y = CHR ''/'' # y"
    by (cases Y) (auto simp: starts_slash_def)
  from assms(1,2) show ?thesis
    unfolding x y by (auto simp: path_match_def starts_slash_def)
qed

lemma append_unlink_record_ok:
  assumes "append_unlink_record ctx ino = (Inr (), ctx1)"
  shows "inodes ctx1 = inodes ctx \<and> clock ctx1 = clock ctx
         \<and> (at_end (meta_fd ctx) \<longrightarrow>
              contents (meta_fd ctx1)
                = contents (meta_fd ctx)
                    @ record_bytes APPENDFS_RECORD_UNLINK (le64 (inode_id ino))
              \<and> at_end (meta_fd ctx1))"
proof -
  let ?p = "le64 (inode_id ino)"
  let ?w = "write_record ctx APPENDFS_RECORD_UNLINK ?p (of_nat (length ?p))"
  from assms have w: "?w = (Inr (), ctx1)"
    by (simp add: append_unlink_record_def Let_def)
  then have f: "fst ?w = Inr ()" and s: "snd ?w = ctx1" by simp_all
  have a: "inodes ctx1 = inodes ctx \<and> clock ctx1 = clock ctx"
    by (simp add: s [symmetric])
  show ?thesis
    using a write_record_appends [of ctx APPENDFS_RECORD_UNLINK ?p] f s by simp
qed

text \<open>
  A successful rename of a path to another one is a run of \<open>rename_move\<close>, on the
  context itself when no live inode is at the destination, and else on the
  context in which the destination row is tombstoned and its UNLINK record is
  appended.
\<close>

lemma rename_unfold:
  assumes ok: "fst (appendfs_rename ctx fp tp) = Inr ()"
      and src: "find_inode_by_path ctx fp = Some src"
      and ne: "normalize_path_copy fp \<noteq> normalize_path_copy tp"
  shows "(find_inode_by_path ctx tp = None
            \<and> rename_move ctx src (normalize_path_copy fp) (normalize_path_copy tp)
                = (Inr (), snd (appendfs_rename ctx fp tp)))
         \<or> (\<exists>dest ctxd. find_inode_by_path ctx tp = Some dest
               \<and> append_unlink_record
                    (set_inode ctx dest ((inodes ctx ! dest)\<lparr>deleted := True, mtime := clock ctx\<rparr>))
                    ((inodes ctx ! dest)\<lparr>deleted := True, mtime := clock ctx\<rparr>)
                   = (Inr (), ctxd)
               \<and> rename_move ctxd src (normalize_path_copy fp) (normalize_path_copy tp)
                   = (Inr (), snd (appendfs_rename ctx fp tp)))"
proof -
  let ?A = "normalize_path_copy fp" and ?B = "normalize_path_copy tp"
  let ?res = "appendfs_rename ctx fp tp"
  obtain parent name where sp: "split_path ?B = Inr (parent, name)"
    using ok src ne
    by (cases "split_path ?B") (auto simp add: appendfs_rename_def Let_def)
  have pm: "\<not> parent_missing ctx parent"
    using ok src ne sp by (auto simp add: appendfs_rename_def Let_def)
  show ?thesis
  proof (cases "find_inode_by_path ctx tp")
    case None
    then have "?res = rename_move ctx src ?A ?B"
      using src ne sp pm by (simp add: appendfs_rename_def Let_def)
    with ok have "rename_move ctx src ?A ?B = (Inr (), snd ?res)"
      by (simp add: prod_eq_iff)
    with None show ?thesis by blast
  next
    case (Some dest)
    let ?d = "(inodes ctx ! dest)\<lparr>deleted := True, mtime := clock ctx\<rparr>"
    let ?u = "append_unlink_record (set_inode ctx dest ?d) ?d"
    from find_inode_by_path_match [OF Some] have live: "\<not> deleted (inodes ctx ! dest)"
      by (simp add: path_match_def)
    obtain r ctxd where u: "?u = (r, ctxd)" by (cases ?u)
    have r: "r = Inr ()"
      using ok src ne sp pm Some live u
      by (cases r) (auto simp add: appendfs_rename_def Let_def split: if_splits)
    have "?res = rename_move ctxd src ?A ?B"
      using ok src ne sp pm Some live u r
      by (auto simp add: appendfs_rename_def Let_def split: if_splits)
    with ok have "rename_move ctxd src ?A ?B = (Inr (), snd ?res)"
      by (simp add: prod_eq_iff)
    with Some u r show ?thesis by blast
  qed
qed

lemma rename_subtree_core:
  assumes run: "rename_move ctxd src A B = (Inr (), ctx')"
      and len: "length (inodes ctxd) = length (inodes ctx)"
      and src: "src < length (inodes ctx)"
      and e: "at_end (meta_fd ctxd)"
      and dir: "S_ISDIR (mode (inodes ctxd ! src))"
      and same: "\<forall>j<length (inodes ctx).
                   inode_id (inodes ctxd ! j) = inode_id (inodes ctx ! j)
                   \<and> path (inodes ctxd ! j) = path (inodes ctx ! j)"
      and sel: "\<forall>j<length (inodes ctx). prefix (A @ ''/'') (path (inodes ctx ! j))
                   \<longrightarrow> deleted (inodes ctxd ! j) = deleted (inodes ctx ! j)"
      and sp: "\<not> prefix (A @ ''/'') (path (inodes ctx ! src))"
      and ne: "A \<noteq> B" and nb: "\<not> prefix (A @ ''/'') B" and na: "\<not> prefix (B @ ''/'') A"
  shows "(\<forall>i<length (inodes ctx). \<forall>r.
            \<not> deleted (inodes ctx ! i) \<and> path (inodes ctx ! i) = A @ ''/'' @ r
            \<longrightarrow> \<not> deleted (inodes ctx' ! i) \<and> path (inodes ctx' ! i) = B @ ''/'' @ r)
         \<and> (\<forall>i<length (inodes ctx').
               \<not> deleted (inodes ctx' ! i) \<longrightarrow> \<not> prefix (A @ ''/'') (path (inodes ctx' ! i)))
         \<and> \<not> deleted (inodes ctx' ! src) \<and> path (inodes ctx' ! src) = B
         \<and> contents (meta_fd ctx')
             = contents (meta_fd ctxd) @ rename_record ctx src B
                 @ concat (map (\<lambda>i. rename_record ctx i
                                       (B @ drop (length A) (path (inodes ctx ! i))))
                             (descendants ctx A))"
proof -
  let ?n = "length (inodes ctx)"
  from src len have srcd: "src < length (inodes ctxd)" by simp
  note m = rename_move_ok [OF run srcd e dir]
  from m have len': "length (inodes ctx') = ?n" by (simp add: len)
  have row: "inodes ctx' ! j =
                 (if j = src
                  then (inodes ctxd ! src)\<lparr>path := B, deleted := False, mtime := clock ctxd\<rparr>
                  else if rename_selects ctxd src A j
                  then (inodes ctxd ! j)\<lparr>path := B @ drop (length A) (path (inodes ctxd ! j)),
                                          deleted := False\<rparr>
                  else inodes ctxd ! j)" if "j < ?n" for j
    using m that len by simp
  have selects: "rename_selects ctxd src A j
                   \<longleftrightarrow> \<not> deleted (inodes ctx ! j) \<and> prefix (A @ ''/'') (path (inodes ctx ! j))"
    if j: "j < ?n" for j
  proof (cases "j = src")
    case True
    with sp show ?thesis by (simp add: rename_selects_iff)
  next
    case False
    with same sel j show ?thesis by (auto simp add: rename_selects_iff)
  qed
  have c1: "\<not> deleted (inodes ctx' ! i) \<and> path (inodes ctx' ! i) = B @ ''/'' @ r"
    if i: "i < ?n" and l: "\<not> deleted (inodes ctx ! i)" and p: "path (inodes ctx ! i) = A @ ''/'' @ r"
    for i r
  proof -
    from p have pre: "prefix (A @ ''/'') (path (inodes ctx ! i))" by (simp add: prefix_def)
    with sp have "i \<noteq> src" by auto
    moreover from pre l i have "rename_selects ctxd src A i" by (simp add: selects)
    moreover from same i p have "path (inodes ctxd ! i) = A @ ''/'' @ r" by simp
    ultimately show ?thesis using row [OF i] by simp
  qed
  have c2: "\<not> prefix (A @ ''/'') (path (inodes ctx' ! i))"
    if i: "i < ?n" and l: "\<not> deleted (inodes ctx' ! i)" for i
  proof (cases "i = src")
    case True
    with row [OF i] nb show ?thesis by simp
  next
    case False
    show ?thesis
    proof (cases "rename_selects ctxd src A i")
      case True
      then have "prefix (A @ ''/'') (path (inodes ctxd ! i))" by (simp add: rename_selects_iff)
      then obtain r where r: "path (inodes ctxd ! i) = A @ ''/'' @ r" by (auto simp: prefix_def)
      from row [OF i] False True r have "path (inodes ctx' ! i) = B @ ''/'' @ r" by simp
      with moved_path_not_below [OF ne nb na, of r] show ?thesis by simp
    next
      case ns: False
      from row [OF i] False ns have eq: "inodes ctx' ! i = inodes ctxd ! i" by simp
      with l ns False show ?thesis by (simp add: rename_selects_iff)
    qed
  qed
  from row [OF src] have c3: "\<not> deleted (inodes ctx' ! src) \<and> path (inodes ctx' ! src) = B"
    by simp
  have filt: "filter (rename_selects ctxd src A) [0..<length (inodes ctxd)] = descendants ctx A"
    unfolding descendants_def len
    by (rule filter_cong [OF refl]) (simp add: selects)
  have recs: "map (\<lambda>i. rename_record ctxd i (B @ drop (length A) (path (inodes ctxd ! i))))
                (descendants ctx A)
              = map (\<lambda>i. rename_record ctx i (B @ drop (length A) (path (inodes ctx ! i))))
                  (descendants ctx A)"
  proof (rule map_cong [OF refl])
    fix i assume "i \<in> set (descendants ctx A)"
    then have "i < ?n" by (simp add: descendants_def)
    with same show "rename_record ctxd i (B @ drop (length A) (path (inodes ctxd ! i)))
                      = rename_record ctx i (B @ drop (length A) (path (inodes ctx ! i)))"
      by (simp add: rename_record_def)
  qed
  have srec: "rename_record ctxd src B = rename_record ctx src B"
    using same src by (simp add: rename_record_def)
  from m have "contents (meta_fd ctx')
             = contents (meta_fd ctxd) @ rename_record ctxd src B
                 @ concat (map (\<lambda>i. rename_record ctxd i
                                       (B @ drop (length A) (path (inodes ctxd ! i))))
                             (filter (rename_selects ctxd src A) [0..<length (inodes ctxd)]))"
    by blast
  then have c4: "contents (meta_fd ctx')
             = contents (meta_fd ctxd) @ rename_record ctx src B
                 @ concat (map (\<lambda>i. rename_record ctx i
                                       (B @ drop (length A) (path (inodes ctx ! i))))
                             (descendants ctx A))"
    by (simp only: filt recs srec)
  from c1 c2 c3 c4 len' show ?thesis by simp
qed

text \<open>
  Claim C7, as amended.  Let \<open>A\<close> and \<open>B\<close> be the normalised paths of a successful
  \<open>rename(A, B)\<close> of a live directory, where \<open>B\<close> is not \<open>A\<close>, not below \<open>A\<close> and
  not above \<open>A\<close>, on a log open for appending.  Then every live inode whose path
  was \<open>A/r\<close> is live with path \<open>B/r\<close>; no live inode has a path that begins with
  \<open>A/\<close>; the renamed inode has path \<open>B\<close>; and what was appended to the log is
  the UNLINK record of the inode that was live at \<open>B\<close>, if there was one, then
  the RENAME record of the renamed inode, then the RENAME records of its
  descendants in table order.
\<close>

theorem rename_moves_subtree:
  assumes ok: "fst (appendfs_rename ctx from_path to_path) = Inr ()"
      and src: "find_inode_by_path ctx from_path = Some src"
      and dir: "S_ISDIR (mode (inodes ctx ! src))"
      and ne: "normalize_path_copy from_path \<noteq> normalize_path_copy to_path"
      and nb: "\<not> prefix (normalize_path_copy from_path @ ''/'') (normalize_path_copy to_path)"
      and na: "\<not> prefix (normalize_path_copy to_path @ ''/'') (normalize_path_copy from_path)"
      and e: "at_end (meta_fd ctx)"
  shows "(\<forall>i<length (inodes ctx). \<forall>r.
            \<not> deleted (inodes ctx ! i)
            \<and> path (inodes ctx ! i) = normalize_path_copy from_path @ ''/'' @ r
            \<longrightarrow> \<not> deleted (inodes (snd (appendfs_rename ctx from_path to_path)) ! i)
                \<and> path (inodes (snd (appendfs_rename ctx from_path to_path)) ! i)
                    = normalize_path_copy to_path @ ''/'' @ r)
         \<and> (\<forall>i<length (inodes (snd (appendfs_rename ctx from_path to_path))).
               \<not> deleted (inodes (snd (appendfs_rename ctx from_path to_path)) ! i)
               \<longrightarrow> \<not> prefix (normalize_path_copy from_path @ ''/'')
                        (path (inodes (snd (appendfs_rename ctx from_path to_path)) ! i)))
         \<and> \<not> deleted (inodes (snd (appendfs_rename ctx from_path to_path)) ! src)
         \<and> path (inodes (snd (appendfs_rename ctx from_path to_path)) ! src)
             = normalize_path_copy to_path
         \<and> contents (meta_fd (snd (appendfs_rename ctx from_path to_path)))
             = contents (meta_fd ctx)
                 @ (case find_inode_by_path ctx to_path of
                      None \<Rightarrow> []
                    | Some d \<Rightarrow>
                        record_bytes APPENDFS_RECORD_UNLINK (le64 (inode_id (inodes ctx ! d))))
                 @ rename_record ctx src (normalize_path_copy to_path)
                 @ concat (map (\<lambda>i. rename_record ctx i
                                       (normalize_path_copy to_path
                                          @ drop (length (normalize_path_copy from_path))
                                              (path (inodes ctx ! i))))
                             (descendants ctx (normalize_path_copy from_path)))"
proof -
  let ?A = "normalize_path_copy from_path" and ?B = "normalize_path_copy to_path"
  let ?ctx' = "snd (appendfs_rename ctx from_path to_path)"
  from find_inode_by_path_match [OF src]
  have sb: "src < length (inodes ctx)" and sm: "path_match ?A (inodes ctx ! src)" by simp_all
  have "\<not> prefix (?A @ ''/'') ?A" by (simp add: prefix_def)
  with sm have sp: "\<not> prefix (?A @ ''/'') (path (inodes ctx ! src))"
    by (intro path_match_not_below [of ?A _ ?A]) simp_all
  from rename_unfold [OF ok src ne]
  show ?thesis
  proof (elim disjE conjE exE)
    assume none: "find_inode_by_path ctx to_path = None"
       and run: "rename_move ctx src ?A ?B = (Inr (), ?ctx')"
    from rename_subtree_core [OF run refl sb e dir _ _ sp ne nb na] none
    show ?thesis by simp
  next
    fix dest ctxd
    let ?d = "(inodes ctx ! dest)\<lparr>deleted := True, mtime := clock ctx\<rparr>"
    assume some: "find_inode_by_path ctx to_path = Some dest"
       and u: "append_unlink_record (set_inode ctx dest ?d) ?d = (Inr (), ctxd)"
       and run: "rename_move ctxd src ?A ?B = (Inr (), ?ctx')"
    from find_inode_by_path_match [OF some]
    have db: "dest < length (inodes ctx)" and dm: "path_match ?B (inodes ctx ! dest)"
      by simp_all
    have dsrc: "dest \<noteq> src"
    proof
      assume "dest = src"
      with sm dm have "?A = ?B" by (intro path_match_same [of ?A "inodes ctx ! src" ?B]) simp_all
      with ne show False by simp
    qed
    from dm nb have dp: "\<not> prefix (?A @ ''/'') (path (inodes ctx ! dest))"
      by (intro path_match_not_below [of ?B _ ?A]) simp_all
    note uo = append_unlink_record_ok [OF u]
    from uo have ind: "inodes ctxd = (inodes ctx)[dest := ?d]" by simp
    from uo e have ed: "at_end (meta_fd ctxd)"
      and cd: "contents (meta_fd ctxd)
                 = contents (meta_fd ctx)
                     @ record_bytes APPENDFS_RECORD_UNLINK (le64 (inode_id (inodes ctx ! dest)))"
      by simp_all
    have len: "length (inodes ctxd) = length (inodes ctx)" by (simp add: ind)
    have dird: "S_ISDIR (mode (inodes ctxd ! src))"
      using dir dsrc by (simp add: ind)
    have same: "\<forall>j<length (inodes ctx).
                   inode_id (inodes ctxd ! j) = inode_id (inodes ctx ! j)
                   \<and> path (inodes ctxd ! j) = path (inodes ctx ! j)"
      using db by (auto simp add: ind nth_list_update)
    have sel: "\<forall>j<length (inodes ctx). prefix (?A @ ''/'') (path (inodes ctx ! j))
                   \<longrightarrow> deleted (inodes ctxd ! j) = deleted (inodes ctx ! j)"
      using dp db by (auto simp add: ind nth_list_update)
    from rename_subtree_core [OF run len sb ed dird same sel sp ne nb na] some cd
    show ?thesis by simp
  qed
qed

lemmas rename_eval = appendfs_rename_def Let_def find_inode_by_path_def subtree_store_def
  store_of_def dir_inode_def file_inode_def normalize_path_copy_def normalize_path_view_def
  starts_slash_def path_match_def split_path_def parent_missing_def rename_move_def
  rename_children_def rename_selects_def path_is_prefix_def S_ISDIR_def S_IFMT_def S_IFDIR_def
  append_rename_record_def rename_payload_def write_record_def write_all_cases set_inode_def
  str_bytes_def live_paths_def

lemma rename_into_itself:
  "fst (appendfs_rename subtree_store ''/a'' ''/a/z'') = Inr ()
   \<and> live_paths (snd (appendfs_rename subtree_store ''/a'' ''/a/z''))
       = [''/a/z'', ''/a/z/b'', ''/a/z/b/c'']"
  by (simp add: rename_eval)

lemma rename_s4:
  "fst (appendfs_rename subtree_store ''/a'' ''/x'') = Inr ()
   \<and> live_paths (snd (appendfs_rename subtree_store ''/a'' ''/x''))
       = [''/x'', ''/x/b'', ''/x/b/c'']"
  by (simp add: rename_eval)


theorem rename_into_own_subtree_counterexample:
  "find_inode_by_path subtree_store ''/a'' = Some 0
   \<and> S_ISDIR (mode (inodes subtree_store ! 0))
   \<and> fst (appendfs_rename subtree_store ''/a'' ''/a/z'') = Inr ()
   \<and> live_paths (snd (appendfs_rename subtree_store ''/a'' ''/a/z''))
       = [''/a/z'', ''/a/z/b'', ''/a/z/b/c'']"
  using rename_into_itself
  by (simp add: find_inode_by_path_def subtree_store_def store_of_def dir_inode_def
        normalize_path_view_def starts_slash_def path_match_def S_ISDIR_def S_IFMT_def
        S_IFDIR_def)

theorem rename_moves_subtree_witness:
  "fst (appendfs_rename subtree_store ''/a'' ''/x'') = Inr ()
   \<and> find_inode_by_path subtree_store ''/a'' = Some 0
   \<and> S_ISDIR (mode (inodes subtree_store ! 0))
   \<and> normalize_path_copy ''/a'' \<noteq> normalize_path_copy ''/x''
   \<and> \<not> prefix (normalize_path_copy ''/a'' @ ''/'') (normalize_path_copy ''/x'')
   \<and> \<not> prefix (normalize_path_copy ''/x'' @ ''/'') (normalize_path_copy ''/a'')
   \<and> at_end (meta_fd subtree_store)
   \<and> live_paths (snd (appendfs_rename subtree_store ''/a'' ''/x''))
       = [''/x'', ''/x/b'', ''/x/b/c'']
   \<and> path (inodes (snd (appendfs_rename subtree_store ''/a'' ''/x'')) ! 2) = ''/x/b/c''
   \<and> contents (meta_fd (snd (appendfs_rename subtree_store ''/a'' ''/x'')))
       = rename_record subtree_store 0 ''/x'' @ rename_record subtree_store 1 ''/x/b''
           @ rename_record subtree_store 2 ''/x/b/c''"
proof -
  let ?c = "snd (appendfs_rename subtree_store ''/a'' ''/x'')"
  have h1: "fst (appendfs_rename subtree_store ''/a'' ''/x'') = Inr ()"
    using rename_s4 by simp
  have h2: "find_inode_by_path subtree_store ''/a'' = Some 0"
    by (simp add: find_inode_by_path_def subtree_store_def store_of_def dir_inode_def
          normalize_path_view_def starts_slash_def path_match_def)
  have h3: "S_ISDIR (mode (inodes subtree_store ! 0))"
    by (simp add: subtree_store_def store_of_def dir_inode_def S_ISDIR_def S_IFMT_def
          S_IFDIR_def)
  have n: "normalize_path_copy ''/a'' = ''/a''" "normalize_path_copy ''/x'' = ''/x''"
    by (simp_all add: normalize_path_copy_def starts_slash_def)
  have h4: "normalize_path_copy ''/a'' \<noteq> normalize_path_copy ''/x''" by (simp add: n)
  have h5: "\<not> prefix (normalize_path_copy ''/a'' @ ''/'') (normalize_path_copy ''/x'')"
    by (simp add: n)
  have h6: "\<not> prefix (normalize_path_copy ''/x'' @ ''/'') (normalize_path_copy ''/a'')"
    by (simp add: n)
  have h7: "at_end (meta_fd subtree_store)"
    by (simp add: at_end_def subtree_store_def store_of_def)
  note t = rename_moves_subtree [OF h1 h2 h3 h4 h5 h6 h7]
  have rows: "2 < length (inodes subtree_store)"
    "\<not> deleted (inodes subtree_store ! 2)"
    "path (inodes subtree_store ! 2) = normalize_path_copy ''/a'' @ ''/'' @ ''b/c''"
    by (simp_all add: subtree_store_def store_of_def file_inode_def n)
  have paths: "path (inodes subtree_store ! Suc 0) = ''/a/b''"
    "path (inodes subtree_store ! 2) = ''/a/b/c''"
    by (simp_all add: subtree_store_def store_of_def dir_inode_def file_inode_def)
  from t [THEN conjunct1, rule_format, of 2 "''b/c''"] rows
  have p2: "path (inodes ?c ! 2) = ''/x/b/c''"
    by (simp add: n)
  have desc: "descendants subtree_store ''/a'' = [1, 2]"
    by (simp add: descendants_def subtree_store_def store_of_def dir_inode_def file_inode_def)
  have none: "find_inode_by_path subtree_store ''/x'' = None"
    by (simp add: find_inode_by_path_def subtree_store_def store_of_def dir_inode_def
          file_inode_def normalize_path_view_def starts_slash_def path_match_def)
  have empty: "contents (meta_fd subtree_store) = []"
    by (simp add: subtree_store_def store_of_def)
  from t [THEN conjunct2, THEN conjunct2, THEN conjunct2, THEN conjunct2]
  have log: "contents (meta_fd ?c)
       = rename_record subtree_store 0 ''/x'' @ rename_record subtree_store 1 ''/x/b''
           @ rename_record subtree_store 2 ''/x/b/c''"
    by (simp add: n desc none empty paths)
  from h1 h2 h3 h4 h5 h6 h7 rename_s4 p2 log show ?thesis by simp
qed

end
